theory Spec2Isabelle
  imports Main "HOL-Library.Multiset"
begin

section \<open>Data model\<close>

text \<open>
  The session layer of the client consists of the zustand store
  (\<^verbatim>\<open>frontend/src/stores/useStore.js\<close>), the hook \<^verbatim>\<open>useWebSocket\<close>
  (\<^verbatim>\<open>frontend/src/hooks/useWebSocket.js\<close>) and the two step filters of the
  components \<^verbatim>\<open>AgentActivity\<close> and \<^verbatim>\<open>ProcessDialog\<close>.

  JavaScript strings are \<^typ>\<open>string\<close>, as UTF-8 bytes.
  An object property that may be missing is an \<open>option\<close>; \<open>None\<close> stands for
  \<^verbatim>\<open>undefined\<close> and \<^verbatim>\<open>null\<close> alike, which the code never tells apart.
  The properties \<^verbatim>\<open>type\<close> and \<^verbatim>\<open>step_type\<close> are only compared and copied, so a value
  that is not a string behaves as an unknown string or, when falsy, as a missing one.
  The property \<^verbatim>\<open>content\<close> is also trimmed and concatenated, which depends on what kind
  of value it is.
\<close>

text \<open>
  A value of \<^verbatim>\<open>content\<close> that \<^verbatim>\<open>JSON.parse\<close> can produce, other than \<^verbatim>\<open>null\<close>: a
  string, or a number, boolean, object or array. Of the latter the code uses only
  whether the value is truthy (all are but \<^verbatim>\<open>0\<close> and \<^verbatim>\<open>false\<close>) and the string that
  \<^verbatim>\<open>+\<close> converts it to, \<open>None\<close> when that conversion throws (an object whose
  \<^verbatim>\<open>toString\<close> property is not callable).
\<close>

datatype jvalue = JString string | JOther bool "string option"

type_synonym ports = "(string \<times> nat) list"

record tool_result =
  success :: bool
  error :: "string option"

text \<open>A decoded inbound object; \<open>msg_type\<close> is the property \<^verbatim>\<open>type\<close>.\<close>

record wsmsg =
  msg_type :: "string option"
  step_type :: "string option"
  content :: "jvalue option"
  ports :: "ports option"
  project_id :: "string option"
  step_number :: "nat option"
  tool_name :: "string option"
  tool_args :: "(string \<times> string) list option"
  tool_result :: "tool_result option"

text \<open>
  What \<^verbatim>\<open>JSON.parse\<close> can return: \<^verbatim>\<open>null\<close>, or a value whose properties can be
  read (an object; a number, string, boolean or array has none of the properties above,
  so it is the object with every field \<open>None\<close>).
\<close>

datatype payload = PNull | PValue wsmsg

text \<open>A frame as it arrives: text that \<^verbatim>\<open>JSON.parse\<close> rejects, or one it accepts.\<close>

datatype frame = Malformed | WellFormed payload

datatype exn = SyntaxError | TypeError | InvalidStateError

record attachment =
  filename :: string
  file_content :: string

text \<open>The argument of \<^verbatim>\<open>addMessage\<close>, and the stored message with id and timestamp.\<close>

record message_in =
  in_role :: string
  in_content :: "jvalue option"
  in_images :: "string list option"
  in_attachedFiles :: "attachment list option"

record chatmsg =
  role :: string
  cm_content :: "jvalue option"
  images :: "string list option"
  attachedFiles :: "attachment list option"
  cm_id :: nat
  timestamp :: nat

text \<open>What the client transmits: a turn, or the stop directive.\<close>

datatype outbound =
    Turn string "string list option" "attachment list option"
  | Stop

datatype readyState = CONNECTING | OPEN | CLOSING | CLOSED

text \<open>
  A \<^verbatim>\<open>WebSocket\<close> object. \<open>closure_projectId\<close> is the \<^verbatim>\<open>projectId\<close> captured by the
  \<^verbatim>\<open>connect\<close> callback that created the socket and that its \<^verbatim>\<open>onclose\<close> handler
  calls again; \<open>close_code\<close> is the code the client passed to \<^verbatim>\<open>close\<close>.
\<close>

record socket =
  url :: string
  ready :: readyState
  closure_projectId :: "string option"
  close_code :: "nat option"
  sent :: "outbound list"

datatype callback = HeartbeatExpired | Reconnect "string option"

record timer =
  callback :: callback
  delay :: nat
  pending :: bool

datatype log_entry =
    WarnNoHeartbeat
  | LogConnectedToProject "string option"
  | LogPortsUpdate ports
  | LogUnknownType "string option"
  | LogConnecting string
  | LogSocketConnected
  | LogParseFailed exn
  | LogDisconnected nat
  | LogSocketError

text \<open>The slice of the zustand store that the session layer reads and writes.\<close>

record store =
  projectPorts :: ports
  messages :: "chatmsg list"
  streamingContent :: string
  liveAssistantContent :: string
  agentSteps :: "wsmsg list"
  agentStatus :: string
  ws :: "nat option"
  wsConnected :: bool

text \<open>
  The hook's refs, the store, and the environment the code acts on: the sockets and
  timers created so far, the console, the clock and the page location. A socket or a
  timer is referred to by its index in the list; a ref or store field that holds one is
  \<open>Some\<close> of the index, and \<open>None\<close> is \<^verbatim>\<open>null\<close>. A timer handle is always truthy
  in the browser, so the tests \<^verbatim>\<open>if (heartbeatTimer.current)\<close> and
  \<^verbatim>\<open>!reconnectTimeout.current\<close> are tests for \<open>Some\<close> and \<open>None\<close>.
\<close>

record client =
  st :: store
  wsRef :: "nat option"
  reconnectTimeout :: "nat option"
  isConnectingRef :: bool
  heartbeatTimer :: "nat option"
  sockets :: "socket list"
  timers :: "timer list"
  console :: "log_entry list"
  clock :: nat
  location_protocol :: string
  location_host :: string

section \<open>JavaScript helpers\<close>

text \<open>\<^verbatim>\<open>v || d\<close> for an optional string \<open>v\<close>: the empty string is falsy.\<close>

definition truthy :: "string option \<Rightarrow> bool" where
  "truthy v = (case v of None \<Rightarrow> False | Some s \<Rightarrow> s \<noteq> [])"

definition or_str :: "string option \<Rightarrow> string \<Rightarrow> string" where
  "or_str v d = (case v of None \<Rightarrow> d | Some s \<Rightarrow> if s \<noteq> [] then s else d)"

definition or_opt :: "string option \<Rightarrow> string option \<Rightarrow> string option" where
  "or_opt v w = (if truthy v then v else w)"

text \<open>
  The same for a value of \<^verbatim>\<open>content\<close>: \<^verbatim>\<open>v || d\<close> with a string \<open>d\<close>, the conversion
  that \<^verbatim>\<open>+\<close> applies to its right operand, and the method call \<^verbatim>\<open>v.trim()\<close>, which
  only a string has.
\<close>

definition js_truthy :: "jvalue \<Rightarrow> bool" where
  "js_truthy v = (case v of JString s \<Rightarrow> s \<noteq> [] | JOther t r \<Rightarrow> t)"

definition or_value :: "jvalue option \<Rightarrow> string \<Rightarrow> jvalue" where
  "or_value v d =
     (case v of None \<Rightarrow> JString d | Some x \<Rightarrow> if js_truthy x then x else JString d)"

definition to_string :: "jvalue \<Rightarrow> exn + string" where
  "to_string v =
     (case v of
        JString s \<Rightarrow> Inr s
      | JOther t None \<Rightarrow> Inl TypeError
      | JOther t (Some r) \<Rightarrow> Inr r)"

text \<open>
  \<^verbatim>\<open>String.prototype.trim\<close> removes the white space and the line terminators of the
  language from both ends. These are their UTF-8 encodings: U+0009, U+000B, U+000C,
  U+0020, U+00A0, U+1680, U+2000 to U+200A, U+202F, U+205F, U+3000, U+FEFF, and
  U+000A, U+000D, U+2028, U+2029.
\<close>

definition white_space :: "string list" where
  "white_space =
     [[CHR 0x09], [CHR 0x0B], [CHR 0x0C], [CHR 0x20], [CHR 0xC2, CHR 0xA0],
      [CHR 0xE1, CHR 0x9A, CHR 0x80],
      [CHR 0xE2, CHR 0x80, CHR 0x80], [CHR 0xE2, CHR 0x80, CHR 0x81],
      [CHR 0xE2, CHR 0x80, CHR 0x82], [CHR 0xE2, CHR 0x80, CHR 0x83],
      [CHR 0xE2, CHR 0x80, CHR 0x84], [CHR 0xE2, CHR 0x80, CHR 0x85],
      [CHR 0xE2, CHR 0x80, CHR 0x86], [CHR 0xE2, CHR 0x80, CHR 0x87],
      [CHR 0xE2, CHR 0x80, CHR 0x88], [CHR 0xE2, CHR 0x80, CHR 0x89],
      [CHR 0xE2, CHR 0x80, CHR 0x8A], [CHR 0xE2, CHR 0x80, CHR 0xAF],
      [CHR 0xE2, CHR 0x81, CHR 0x9F], [CHR 0xE3, CHR 0x80, CHR 0x80],
      [CHR 0xEF, CHR 0xBB, CHR 0xBF],
      [CHR 0x0A], [CHR 0x0D], [CHR 0xE2, CHR 0x80, CHR 0xA8], [CHR 0xE2, CHR 0x80, CHR 0xA9]]"

text \<open>Removing from the start of \<open>s\<close> every leading occurrence of one of the strings \<open>xs\<close>.\<close>

function strip_start :: "string list \<Rightarrow> string \<Rightarrow> string" where
  "strip_start xs s =
     (case List.find (\<lambda>x. x \<noteq> [] \<and> take (length x) s = x) xs of
        None \<Rightarrow> s
      | Some x \<Rightarrow> strip_start xs (drop (length x) s))"
  by pat_completeness auto
termination
proof (relation "measure (\<lambda>(xs, s). length s)")
  show "wf (measure (\<lambda>(xs, s). length s))" by simp
next
  fix xs :: "string list" and s x :: string
  assume "List.find (\<lambda>x. x \<noteq> [] \<and> take (length x) s = x) xs = Some x"
  then have x: "x \<noteq> []" "take (length x) s = x"
    by (auto simp: find_Some_iff)
  then have "s \<noteq> []" by auto
  with x(1) show "((xs, drop (length x) s), (xs, s)) \<in> measure (\<lambda>(xs, s). length s)"
    by simp
qed

definition trim :: "string \<Rightarrow> string" where
  "trim s = rev (strip_start (map rev white_space) (rev (strip_start white_space s)))"

definition js_trim :: "jvalue \<Rightarrow> exn + string" where
  "js_trim v = (case v of JString s \<Rightarrow> Inr (trim s) | JOther t r \<Rightarrow> Inl TypeError)"

definition thinking_placeholder :: string where
  "thinking_placeholder =
     [CHR 0xD0, CHR 0x94, CHR 0xD1, CHR 0x83, CHR 0xD0, CHR 0xBC, CHR 0xD0, CHR 0xB0,
      CHR 0xD1, CHR 0x8E, CHR 0x2E, CHR 0x2E, CHR 0x2E]"

definition stopped_fallback :: string where
  "stopped_fallback =
     [CHR 0xE2, CHR 0x8F, CHR 0xB9, CHR 0xEF, CHR 0xB8, CHR 0x8F, CHR 0x20, CHR 0xD0,
      CHR 0x90, CHR 0xD0, CHR 0xB3, CHR 0xD0, CHR 0xB5, CHR 0xD0, CHR 0xBD, CHR 0xD1,
      CHR 0x82, CHR 0x20, CHR 0xD0, CHR 0xBE, CHR 0xD1, CHR 0x81, CHR 0xD1, CHR 0x82,
      CHR 0xD0, CHR 0xB0, CHR 0xD0, CHR 0xBD, CHR 0xD0, CHR 0xBE, CHR 0xD0, CHR 0xB2,
      CHR 0xD0, CHR 0xBB, CHR 0xD0, CHR 0xB5, CHR 0xD0, CHR 0xBD]"

section \<open>Store actions\<close>

definition addMessage :: "nat \<Rightarrow> message_in \<Rightarrow> store \<Rightarrow> store" where
  "addMessage now m s =
     s\<lparr>messages := messages s @
          [\<lparr>role = in_role m, cm_content = in_content m, images = in_images m,
            attachedFiles = in_attachedFiles m, cm_id = now, timestamp = now\<rparr>],
       streamingContent := (if in_role m = ''assistant'' then [] else streamingContent s),
       liveAssistantContent := (if in_role m = ''user'' then [] else liveAssistantContent s)\<rparr>"

text \<open>
  \<^verbatim>\<open>addStreamingChunk\<close>: when the conversion of the chunk to a string throws, the
  function passed to \<^verbatim>\<open>set\<close> throws and the store is not written.
\<close>

definition addStreamingChunk :: "jvalue \<Rightarrow> store \<Rightarrow> exn + store" where
  "addStreamingChunk chunk s =
     (case to_string (or_value (Some chunk) []) of
        Inl e \<Rightarrow> Inl e
      | Inr t \<Rightarrow> Inr (s\<lparr>streamingContent := or_str (Some (streamingContent s)) [] @ t\<rparr>))"

definition clearStreamingContent :: "store \<Rightarrow> store" where
  "clearStreamingContent s = s\<lparr>streamingContent := []\<rparr>"

definition setLiveAssistantContent :: "string option \<Rightarrow> store \<Rightarrow> store" where
  "setLiveAssistantContent text s =
     s\<lparr>liveAssistantContent := (case text of None \<Rightarrow> [] | Some t \<Rightarrow> t)\<rparr>"

definition addAgentStep :: "wsmsg \<Rightarrow> store \<Rightarrow> store" where
  "addAgentStep step s = s\<lparr>agentSteps := agentSteps s @ [step]\<rparr>"

definition clearAgentSteps :: "store \<Rightarrow> store" where
  "clearAgentSteps s = s\<lparr>agentSteps := []\<rparr>"

definition setAgentStatus :: "string \<Rightarrow> store \<Rightarrow> store" where
  "setAgentStatus status s = s\<lparr>agentStatus := status\<rparr>"

definition setWs :: "nat option \<Rightarrow> store \<Rightarrow> store" where
  "setWs w s = s\<lparr>ws := w, wsConnected := (w \<noteq> None)\<rparr>"

definition updatePorts :: "ports \<Rightarrow> store \<Rightarrow> store" where
  "updatePorts p s = s\<lparr>projectPorts := p\<rparr>"

text \<open>
  What \<^verbatim>\<open>logout\<close> and a successful \<^verbatim>\<open>createProject\<close> write to this slice of the store.
\<close>

definition logout :: "store \<Rightarrow> store" where
  "logout s = s\<lparr>projectPorts := [], messages := [], agentSteps := []\<rparr>"

definition createProject_done :: "ports \<Rightarrow> store \<Rightarrow> store" where
  "createProject_done p s =
     s\<lparr>projectPorts := p, messages := [], agentSteps := [], streamingContent := []\<rparr>"

definition in_store :: "(store \<Rightarrow> store) \<Rightarrow> client \<Rightarrow> client" where
  "in_store f c = c\<lparr>st := f (st c)\<rparr>"

definition console_log :: "log_entry \<Rightarrow> client \<Rightarrow> client" where
  "console_log e c = c\<lparr>console := console c @ [e]\<rparr>"

text \<open>A handler body is a sequence of statements, run in order.\<close>

definition seq :: "('a \<Rightarrow> 'a) list \<Rightarrow> 'a \<Rightarrow> 'a" where
  "seq fs x = fold (\<lambda>f. f) fs x"

section \<open>Timers and sockets\<close>

definition setTimeout :: "callback \<Rightarrow> nat \<Rightarrow> client \<Rightarrow> nat \<times> client" where
  "setTimeout cb ms c =
     (length (timers c),
      c\<lparr>timers := timers c @ [\<lparr>callback = cb, delay = ms, pending = True\<rparr>]\<rparr>)"

text \<open>
  \<open>cancel h\<close> takes the timer \<open>h\<close> off the pending ones, as \<^verbatim>\<open>clearTimeout(h)\<close> does
  and as the firing of the timer does; a handle that names no timer is ignored.
\<close>

definition cancel :: "nat \<Rightarrow> timer list \<Rightarrow> timer list" where
  "cancel h ts = (if h < length ts then ts[h := (ts ! h)\<lparr>pending := False\<rparr>] else ts)"

definition clearTimeout :: "nat \<Rightarrow> client \<Rightarrow> client" where
  "clearTimeout h c = c\<lparr>timers := cancel h (timers c)\<rparr>"

text \<open>
  \<^verbatim>\<open>new WebSocket(url)\<close>, \<^verbatim>\<open>close(code)\<close> and \<^verbatim>\<open>send(data)\<close> as the WebSocket
  interface defines them: \<^verbatim>\<open>close\<close> does nothing on a closing or closed socket and
  otherwise starts closing; \<^verbatim>\<open>send\<close> throws while connecting, transmits when open and
  drops the data otherwise.
\<close>

definition new_WebSocket :: "string \<Rightarrow> string option \<Rightarrow> client \<Rightarrow> nat \<times> client" where
  "new_WebSocket u pid c =
     (length (sockets c),
      c\<lparr>sockets := sockets c @
          [\<lparr>url = u, ready = CONNECTING, closure_projectId = pid, close_code = None,
            sent = []\<rparr>]\<rparr>)"

definition WebSocket_close :: "nat option \<Rightarrow> socket \<Rightarrow> socket" where
  "WebSocket_close code sk =
     (if ready sk = CLOSING \<or> ready sk = CLOSED then sk
      else sk\<lparr>ready := CLOSING, close_code := code\<rparr>)"

definition ws_close :: "nat \<Rightarrow> nat option \<Rightarrow> client \<Rightarrow> client" where
  "ws_close w code c =
     c\<lparr>sockets := (sockets c)[w := WebSocket_close code (sockets c ! w)]\<rparr>"

definition ws_send :: "nat \<Rightarrow> outbound \<Rightarrow> client \<Rightarrow> exn option \<times> client" where
  "ws_send w data c =
     (if ready (sockets c ! w) = CONNECTING then (Some InvalidStateError, c)
      else if ready (sockets c ! w) = OPEN then
        (None, c\<lparr>sockets := (sockets c)[w := (sockets c ! w)
                    \<lparr>sent := sent (sockets c ! w) @ [data]\<rparr>]\<rparr>)
      else (None, c))"

definition JSON_parse :: "frame \<Rightarrow> exn + payload" where
  "JSON_parse f = (case f of Malformed \<Rightarrow> Inl SyntaxError | WellFormed p \<Rightarrow> Inr p)"

section \<open>The hook useWebSocket\<close>

definition HEARTBEAT_TIMEOUT_MS :: nat where
  "HEARTBEAT_TIMEOUT_MS = 45000"

definition resetHeartbeatTimer :: "client \<Rightarrow> client" where
  "resetHeartbeatTimer c =
     (let c1 = (case heartbeatTimer c of Some h \<Rightarrow> clearTimeout h c | None \<Rightarrow> c);
          (h, c2) = setTimeout HeartbeatExpired HEARTBEAT_TIMEOUT_MS c1
      in c2\<lparr>heartbeatTimer := Some h\<rparr>)"

text \<open>The callback that \<^verbatim>\<open>resetHeartbeatTimer\<close> passes to \<^verbatim>\<open>setTimeout\<close>.\<close>

definition heartbeat_expired :: "client \<Rightarrow> client" where
  "heartbeat_expired c =
     seq [console_log WarnNoHeartbeat,
          (\<lambda>c. case wsRef c of
                  Some w \<Rightarrow> if ready (sockets c ! w) = OPEN then ws_close w (Some 4000) c else c
                | None \<Rightarrow> c)] c"

text \<open>The \<^verbatim>\<open>agent_step\<close> case of the switch in \<^verbatim>\<open>handleMessage\<close>.\<close>

definition agent_step :: "wsmsg \<Rightarrow> client \<Rightarrow> exn option \<times> client" where
  "agent_step d c =
     (let stepData = d\<lparr>msg_type := or_opt (step_type d) (msg_type d)\<rparr>;
          c1 = in_store (addAgentStep stepData) c;
          stepType = or_opt (step_type d) (msg_type d)
      in case js_trim (or_value (content d) []) of
           Inl e \<Rightarrow> (Some e, c1)
         | Inr content' \<Rightarrow>
             (None,
              (if stepType = Some ''thinking'' then
                 seq [in_store (setAgentStatus ''thinking''),
                      in_store (setLiveAssistantContent
                        (Some (or_str (Some content') thinking_placeholder)))]
               else if stepType = Some ''llm_text'' then
                 seq [in_store (setAgentStatus ''working''),
                      in_store (setLiveAssistantContent (Some (or_str (Some content') [])))]
               else if stepType = Some ''tool_call'' \<or> stepType = Some ''tool_result'' then
                 in_store (setAgentStatus ''working'')
               else (\<lambda>c. c)) c1))"

text \<open>The switch on \<^verbatim>\<open>data.type\<close> in \<^verbatim>\<open>handleMessage\<close>.\<close>

definition dispatch :: "wsmsg \<Rightarrow> client \<Rightarrow> exn option \<times> client" where
  "dispatch d c =
     (if msg_type d = Some ''connected'' then
        (None,
         seq [console_log (LogConnectedToProject (project_id d)),
              in_store (updatePorts (case ports d of Some p \<Rightarrow> p | None \<Rightarrow> []))] c)
      else if msg_type d = Some ''agent_step'' then agent_step d c
      else if msg_type d = Some ''agent_response'' then
        (None,
         seq [in_store (addMessage (clock c)
                \<lparr>in_role = ''assistant'', in_content = content d, in_images = None,
                 in_attachedFiles = None\<rparr>),
              in_store clearStreamingContent,
              in_store (setLiveAssistantContent (Some [])),
              in_store (setAgentStatus ''done'')] c)
      else if msg_type d = Some ''agent_stopped'' then
        (None,
         seq [in_store (addMessage (clock c)
                \<lparr>in_role = ''assistant'',
                 in_content = Some (or_value (content d) stopped_fallback), in_images = None,
                 in_attachedFiles = None\<rparr>),
              in_store clearStreamingContent,
              in_store (setLiveAssistantContent (Some [])),
              in_store (setAgentStatus ''idle'')] c)
      else if msg_type d = Some ''ports_update'' then
        (None,
         seq [console_log (LogPortsUpdate (case ports d of Some p \<Rightarrow> p | None \<Rightarrow> [])),
              in_store (updatePorts (case ports d of Some p \<Rightarrow> p | None \<Rightarrow> []))] c)
      else if msg_type d = Some ''error'' then
        (None,
         seq [in_store (addMessage (clock c)
                \<lparr>in_role = ''error'', in_content = content d, in_images = None,
                 in_attachedFiles = None\<rparr>),
              in_store clearStreamingContent,
              in_store (setLiveAssistantContent (Some [])),
              in_store (setAgentStatus ''error'')] c)
      else if msg_type d = Some ''user_message'' then (None, c)
      else (None, console_log (LogUnknownType (msg_type d)) c))"

text \<open>
  \<^verbatim>\<open>handleMessage\<close>. The store always defines the actions that the first line tests,
  so the early return of that line is never taken. Reading \<^verbatim>\<open>data.type\<close> of
  \<^verbatim>\<open>null\<close> throws, after the watchdog has been reset. What a statement throws leaves
  the function at once, with the writes made so far.
\<close>

definition handleMessage :: "payload \<Rightarrow> client \<Rightarrow> exn option \<times> client" where
  "handleMessage data c =
     (let c1 = resetHeartbeatTimer c in
      case data of
        PNull \<Rightarrow> (Some TypeError, c1)
      | PValue d \<Rightarrow>
          if msg_type d = Some ''heartbeat'' then (None, c1)
          else if msg_type d = Some ''agent_stream_chunk'' then
            (case addStreamingChunk (or_value (content d) []) (st c1) of
               Inl e \<Rightarrow> (Some e, c1)
             | Inr s \<Rightarrow> (None, in_store (setAgentStatus ''working'') (c1\<lparr>st := s\<rparr>)))
          else dispatch d c1)"

definition connect :: "string option \<Rightarrow> client \<Rightarrow> client" where
  "connect projectId c =
     (if \<not> truthy projectId then c
      else if isConnectingRef c \<or>
              (case wsRef c of Some w \<Rightarrow> ready (sockets c ! w) = CONNECTING | None \<Rightarrow> False)
      then c
      else if (case wsRef c of Some w \<Rightarrow> ready (sockets c ! w) = OPEN | None \<Rightarrow> False)
      then c
      else
        let c1 = c\<lparr>isConnectingRef := True\<rparr>;
            c2 = (case wsRef c1 of
                    Some w \<Rightarrow> (ws_close w None c1)\<lparr>wsRef := None\<rparr>
                  | None \<Rightarrow> c1);
            c3 = (case reconnectTimeout c2 of
                    Some t \<Rightarrow> (clearTimeout t c2)\<lparr>reconnectTimeout := None\<rparr>
                  | None \<Rightarrow> c2);
            protocol = (if location_protocol c3 = ''https:'' then ''wss:'' else ''ws:'');
            wsUrl = protocol @ ''//'' @ location_host c3 @ ''/ws/chat/'' @ or_str projectId [];
            c4 = console_log (LogConnecting wsUrl) c3;
            (w, c5) = new_WebSocket wsUrl projectId c4
        in c5\<lparr>wsRef := Some w\<rparr>)"

definition ws_onopen :: "nat \<Rightarrow> client \<Rightarrow> client" where
  "ws_onopen w c =
     seq [console_log LogSocketConnected,
          (\<lambda>c. c\<lparr>isConnectingRef := False\<rparr>),
          resetHeartbeatTimer,
          in_store (setWs (Some w))] c"

text \<open>\<^verbatim>\<open>ws.onmessage\<close>: the \<^verbatim>\<open>try\<close> block, and the \<^verbatim>\<open>catch\<close> that logs what it threw.\<close>

definition onmessage_try :: "frame \<Rightarrow> client \<Rightarrow> exn option \<times> client" where
  "onmessage_try f c =
     (case JSON_parse f of Inl e \<Rightarrow> (Some e, c) | Inr data \<Rightarrow> handleMessage data c)"

definition ws_onmessage :: "frame \<Rightarrow> client \<Rightarrow> exn option \<times> client" where
  "ws_onmessage f c =
     (case onmessage_try f c of
        (None, c') \<Rightarrow> (None, c')
      | (Some e, c') \<Rightarrow> (None, console_log (LogParseFailed e) c'))"

definition ws_onclose :: "nat \<Rightarrow> nat \<Rightarrow> client \<Rightarrow> client" where
  "ws_onclose w code c =
     seq [console_log (LogDisconnected code),
          (\<lambda>c. c\<lparr>isConnectingRef := False\<rparr>),
          (\<lambda>c. case heartbeatTimer c of Some h \<Rightarrow> clearTimeout h c | None \<Rightarrow> c),
          in_store (setWs None),
          (\<lambda>c. if code \<noteq> 1000 \<and> reconnectTimeout c = None \<and> wsRef c = Some w then
                  let delay = (if code = 4000 then 1000 else 5000);
                      (t, c') = setTimeout (Reconnect (closure_projectId (sockets c ! w))) delay c
                  in c'\<lparr>reconnectTimeout := Some t\<rparr>
                else c)] c"

definition ws_onerror :: "nat \<Rightarrow> client \<Rightarrow> client" where
  "ws_onerror w c = seq [console_log LogSocketError, (\<lambda>c. c\<lparr>isConnectingRef := False\<rparr>)] c"

text \<open>The callback that \<^verbatim>\<open>ws.onclose\<close> passes to \<^verbatim>\<open>setTimeout\<close>.\<close>

definition reconnect_fired :: "string option \<Rightarrow> client \<Rightarrow> client" where
  "reconnect_fired projectId c =
     seq [(\<lambda>c. c\<lparr>reconnectTimeout := None\<rparr>), connect projectId] c"

text \<open>The effect of the hook, and the cleanup it returns.\<close>

definition effect :: "string option \<Rightarrow> client \<Rightarrow> client" where
  "effect projectId c = connect projectId c"

definition cleanup :: "client \<Rightarrow> client" where
  "cleanup c =
     seq [(\<lambda>c. case heartbeatTimer c of
                  Some h \<Rightarrow> (clearTimeout h c)\<lparr>heartbeatTimer := None\<rparr>
                | None \<Rightarrow> c),
          (\<lambda>c. case reconnectTimeout c of
                  Some t \<Rightarrow> (clearTimeout t c)\<lparr>reconnectTimeout := None\<rparr>
                | None \<Rightarrow> c),
          (\<lambda>c. case wsRef c of
                  Some w \<Rightarrow> (ws_close w (Some 1000) c)\<lparr>wsRef := None\<rparr>
                | None \<Rightarrow> c),
          (\<lambda>c. c\<lparr>isConnectingRef := False\<rparr>)] c"

section \<open>Outbound commands of the store\<close>

definition sendMessage ::
  "string \<Rightarrow> string list option \<Rightarrow> attachment list option \<Rightarrow> client \<Rightarrow> exn option \<times> client"
where
  "sendMessage message imgs files c =
     (case ws (st c) of
        None \<Rightarrow> (None, c)
      | Some w \<Rightarrow>
          if wsConnected (st c) then
            let payload = Turn message
                  (case imgs of
                     Some is \<Rightarrow> if length is > 0 then Some is else None
                   | None \<Rightarrow> None)
                  (case files of
                     Some fs \<Rightarrow>
                       if length fs > 0
                       then Some (map (\<lambda>f. \<lparr>filename = filename f,
                                             file_content = file_content f\<rparr>) fs)
                       else None
                   | None \<Rightarrow> None)
            in case ws_send w payload c of
                 (Some e, c') \<Rightarrow> (Some e, c')
               | (None, c') \<Rightarrow>
                   (None,
                    seq [in_store (addMessage (clock c')
                           \<lparr>in_role = ''user'', in_content = Some (JString message),
                            in_images = imgs,
                            in_attachedFiles = files\<rparr>),
                         in_store (\<lambda>s. s\<lparr>agentStatus := ''thinking'', agentSteps := [],
                                          streamingContent := []\<rparr>)] c')
          else (None, c))"

definition stopAgent :: "client \<Rightarrow> exn option \<times> client" where
  "stopAgent c =
     (case ws (st c) of
        None \<Rightarrow> (None, c)
      | Some w \<Rightarrow>
          if wsConnected (st c) then
            (case ws_send w Stop c of
               (Some e, c') \<Rightarrow> (Some e, c')
             | (None, c') \<Rightarrow> (None, in_store (\<lambda>s. s\<lparr>agentStatus := ''idle''\<rparr>) c'))
          else (None, c))"

section \<open>View classifiers\<close>

definition ACTIVITY_TYPES :: "string list" where
  "ACTIVITY_TYPES = [''thinking'', ''tool_call'', ''tool_result'', ''error'']"

definition DIALOG_TYPES :: "string list" where
  "DIALOG_TYPES = [''llm_text'', ''response'']"

definition ACTION_TYPES :: "string list" where
  "ACTION_TYPES = [''thinking'', ''tool_call'', ''tool_result'']"

text \<open>\<^verbatim>\<open>Set.prototype.has\<close> on the \<^verbatim>\<open>type\<close> of a step.\<close>

definition has :: "string list \<Rightarrow> string option \<Rightarrow> bool" where
  "has T v = (case v of None \<Rightarrow> False | Some k \<Rightarrow> k \<in> set T)"

definition activitySteps :: "store \<Rightarrow> wsmsg list" where
  "activitySteps s = filter (\<lambda>x. has ACTIVITY_TYPES (msg_type x)) (agentSteps s)"

definition dialogSteps :: "store \<Rightarrow> wsmsg list" where
  "dialogSteps s = filter (\<lambda>x. has DIALOG_TYPES (msg_type x)) (agentSteps s)"

definition actionSteps :: "store \<Rightarrow> wsmsg list" where
  "actionSteps s = filter (\<lambda>x. has ACTION_TYPES (msg_type x)) (agentSteps s)"

section \<open>The client as an event system\<close>

text \<open>
  Everything happens on one event loop: the effect of the hook and its cleanup, the
  events of a socket, a timer that fires, the user's commands, and the store updates
  of a logout and of a created project. A socket opens only
  while it is connecting, delivers frames until it is closed, and closes once; when a
  connection fails the browser fires \<^verbatim>\<open>error\<close> and then \<^verbatim>\<open>close\<close> on the socket, by
  then closed. An event that cannot happen in the current state is skipped.
\<close>

datatype event =
    Effect "string option"
  | Cleanup
  | SocketOpens nat
  | SocketDelivers nat frame
  | SocketCloses nat nat
  | SocketFails nat nat
  | TimerFires nat
  | UserSends string "string list option" "attachment list option"
  | UserStops
  | UserLogsOut
  | ProjectCreated ports
  | ClockAdvances nat

definition set_ready :: "nat \<Rightarrow> readyState \<Rightarrow> client \<Rightarrow> client" where
  "set_ready w r c = c\<lparr>sockets := (sockets c)[w := (sockets c ! w)\<lparr>ready := r\<rparr>]\<rparr>"

definition run_callback :: "callback \<Rightarrow> client \<Rightarrow> client" where
  "run_callback cb c =
     (case cb of HeartbeatExpired \<Rightarrow> heartbeat_expired c
               | Reconnect projectId \<Rightarrow> reconnect_fired projectId c)"

definition fire :: "event \<Rightarrow> client \<Rightarrow> client" where
  "fire e c =
     (case e of
        Effect projectId \<Rightarrow> effect projectId c
      | Cleanup \<Rightarrow> cleanup c
      | SocketOpens w \<Rightarrow>
          if w < length (sockets c) \<and> ready (sockets c ! w) = CONNECTING
          then ws_onopen w (set_ready w OPEN c) else c
      | SocketDelivers w f \<Rightarrow>
          if w < length (sockets c) \<and>
             (ready (sockets c ! w) = OPEN \<or> ready (sockets c ! w) = CLOSING)
          then snd (ws_onmessage f c) else c
      | SocketCloses w code \<Rightarrow>
          if w < length (sockets c) \<and> ready (sockets c ! w) \<noteq> CLOSED
          then ws_onclose w code (set_ready w CLOSED c) else c
      | SocketFails w code \<Rightarrow>
          if w < length (sockets c) \<and> ready (sockets c ! w) \<noteq> CLOSED
          then ws_onclose w code (ws_onerror w (set_ready w CLOSED c)) else c
      | TimerFires t \<Rightarrow>
          if t < length (timers c) \<and> pending (timers c ! t)
          then run_callback (callback (timers c ! t)) (c\<lparr>timers := cancel t (timers c)\<rparr>)
          else c
      | UserSends message imgs files \<Rightarrow> snd (sendMessage message imgs files c)
      | UserStops \<Rightarrow> snd (stopAgent c)
      | UserLogsOut \<Rightarrow> in_store logout c
      | ProjectCreated p \<Rightarrow> in_store (createProject_done p) c
      | ClockAdvances n \<Rightarrow> c\<lparr>clock := clock c + n\<rparr>)"

definition run :: "event list \<Rightarrow> client \<Rightarrow> client" where
  "run es c = fold fire es c"

definition initial_store :: store where
  "initial_store =
     \<lparr>projectPorts = [], messages = [], streamingContent = [], liveAssistantContent = [],
      agentSteps = [], agentStatus = ''idle'', ws = None, wsConnected = False\<rparr>"

definition initial_client :: "string \<Rightarrow> string \<Rightarrow> nat \<Rightarrow> client" where
  "initial_client protocol host now =
     \<lparr>st = initial_store, wsRef = None, reconnectTimeout = None, isConnectingRef = False,
      heartbeatTimer = None, sockets = [], timers = [], console = [], clock = now,
      location_protocol = protocol, location_host = host\<rparr>"

text \<open>Frames handled one after the other by \<^verbatim>\<open>ws.onmessage\<close>.\<close>

definition receive :: "frame list \<Rightarrow> client \<Rightarrow> client" where
  "receive fs c = fold (\<lambda>f c. snd (ws_onmessage f c)) fs c"

section \<open>The specification's tables\<close>





text \<open>
  The text that the content of a chunk adds to \<open>streamingContent\<close>: the string itself,
  nothing for a missing or falsy content, and for another value the string it converts
  to (nothing when the conversion throws).
\<close>

definition chunk_text :: "jvalue option \<Rightarrow> string" where
  "chunk_text v =
     (case v of
        None \<Rightarrow> []
      | Some (JString s) \<Rightarrow> s
      | Some (JOther t r) \<Rightarrow> (if t then (case r of None \<Rightarrow> [] | Some x \<Rightarrow> x) else []))"

text \<open>The message types of section 3, and the fixed set of step kinds.\<close>

definition recognized_types :: "string list" where
  "recognized_types =
     [''connected'', ''heartbeat'', ''agent_step'', ''agent_stream_chunk'',
      ''agent_response'', ''agent_stopped'', ''ports_update'', ''error'', ''user_message'']"

definition fixed_kinds :: "string list" where
  "fixed_kinds = [''thinking'', ''llm_text'', ''tool_call'', ''tool_result'']"

text \<open>A message with the given type, step type and content, and no other property.\<close>

definition msg :: "string \<Rightarrow> string option \<Rightarrow> string option \<Rightarrow> wsmsg" where
  "msg t k txt =
     \<lparr>msg_type = Some t, step_type = k, content = map_option JString txt, ports = None,
      project_id = None,
      step_number = None, tool_name = None, tool_args = None, tool_result = None\<rparr>"

section \<open>Invariants of the event system\<close>

text \<open>
  The timers that are pending, by the callback they run, and the sockets that are
  connecting or open, as sets of handles.
\<close>

definition pending_heartbeats :: "timer list \<Rightarrow> nat set" where
  "pending_heartbeats ts =
     {i. i < length ts \<and> pending (ts ! i) \<and> callback (ts ! i) = HeartbeatExpired}"

definition pending_reconnects :: "timer list \<Rightarrow> nat set" where
  "pending_reconnects ts =
     {i. i < length ts \<and> pending (ts ! i) \<and> callback (ts ! i) \<noteq> HeartbeatExpired}"

definition heartbeat_ids :: "timer list \<Rightarrow> nat set" where
  "heartbeat_ids ts = {i. i < length ts \<and> callback (ts ! i) = HeartbeatExpired}"

definition live :: "socket \<Rightarrow> bool" where
  "live sk \<longleftrightarrow> ready sk = CONNECTING \<or> ready sk = OPEN"

definition live_sockets :: "socket list \<Rightarrow> nat set" where
  "live_sockets ss = {i. i < length ss \<and> live (ss ! i)}"

text \<open>
  Four facts about the states that the client reaches. The handle in \<open>heartbeatTimer\<close>
  is one of a watchdog timer, no other watchdog timer is pending, and the pending
  reconnect timers are exactly the one in \<open>reconnectTimeout\<close>, if any. Every socket
  that is connecting or open is the one in \<open>wsRef\<close>, which names a socket. The socket
  that the store holds exists and is no longer connecting. While a reconnect is
  pending, the socket in \<open>wsRef\<close> is closed. So the handles that the code reads always
  name a socket or a timer of the lists.
\<close>

definition timers_ok :: "client \<Rightarrow> bool" where
  "timers_ok c \<longleftrightarrow>
     set_option (heartbeatTimer c) \<subseteq> heartbeat_ids (timers c) \<and>
     pending_heartbeats (timers c) \<subseteq> set_option (heartbeatTimer c) \<and>
     pending_reconnects (timers c) = set_option (reconnectTimeout c)"

definition sockets_ok :: "client \<Rightarrow> bool" where
  "sockets_ok c \<longleftrightarrow>
     live_sockets (sockets c) \<subseteq> set_option (wsRef c) \<and>
     set_option (wsRef c) \<subseteq> {..<length (sockets c)}"

definition store_ws_ok :: "client \<Rightarrow> bool" where
  "store_ws_ok c \<longleftrightarrow>
     (case ws (st c) of
        None \<Rightarrow> True
      | Some w \<Rightarrow> w < length (sockets c) \<and> ready (sockets c ! w) \<noteq> CONNECTING)"

definition reconnect_ok :: "client \<Rightarrow> bool" where
  "reconnect_ok c \<longleftrightarrow>
     reconnectTimeout c = None \<or>
     (case wsRef c of None \<Rightarrow> False | Some w \<Rightarrow> ready (sockets c ! w) = CLOSED)"

definition hook_ok :: "client \<Rightarrow> bool" where
  "hook_ok c \<longleftrightarrow> timers_ok c \<and> sockets_ok c \<and> store_ws_ok c \<and> reconnect_ok c"

text \<open>
  A client whose hook has connected for the project \<open>p1\<close> and whose socket has opened.
\<close>

definition demo_client :: client where
  "demo_client =
     run [Effect (Some ''p1''), SocketOpens 0] (initial_client ''https:'' ''example.org'' 0)"





section \<open>Basic facts\<close>

lemmas store_actions =
  addMessage_def addStreamingChunk_def clearStreamingContent_def setLiveAssistantContent_def
  addAgentStep_def clearAgentSteps_def setAgentStatus_def setWs_def updatePorts_def

lemma seq_Nil [simp]: "seq [] x = x"
  by (simp add: seq_def)

lemma seq_Cons [simp]: "seq (f # fs) x = seq fs (f x)"
  by (simp add: seq_def)

lemma st_in_store [simp]: "st (in_store f c) = f (st c)"
  by (simp add: in_store_def)

lemma st_console_log [simp]: "st (console_log e c) = st c"
  by (simp add: console_log_def)

lemma console_in_store [simp]: "console (in_store f c) = console c"
  by (simp add: in_store_def)

lemma clock_in_store [simp]: "clock (in_store f c) = clock c"
  by (simp add: in_store_def)

lemma clock_console_log [simp]: "clock (console_log e c) = clock c"
  by (simp add: console_log_def)

lemma st_resetHeartbeatTimer [simp]: "st (resetHeartbeatTimer c) = st c"
  by (simp add: resetHeartbeatTimer_def setTimeout_def clearTimeout_def split: option.splits)

lemma clock_resetHeartbeatTimer [simp]: "clock (resetHeartbeatTimer c) = clock c"
  by (simp add: resetHeartbeatTimer_def setTimeout_def clearTimeout_def split: option.splits)

lemma console_resetHeartbeatTimer [simp]: "console (resetHeartbeatTimer c) = console c"
  by (simp add: resetHeartbeatTimer_def setTimeout_def clearTimeout_def split: option.splits)

lemma receive_Nil [simp]: "receive [] c = c"
  by (simp add: receive_def)

lemma receive_Cons [simp]: "receive (f # fs) c = receive fs (snd (ws_onmessage f c))"
  by (simp add: receive_def)


subsection \<open>What \<^verbatim>\<open>ws.onmessage\<close> does with each form of frame\<close>

lemma handle_value:
  "handleMessage (PValue d) c =
     (if msg_type d = Some ''heartbeat'' then (None, resetHeartbeatTimer c)
      else if msg_type d = Some ''agent_stream_chunk'' then
        (case addStreamingChunk (or_value (content d) []) (st c) of
           Inl e \<Rightarrow> (Some e, resetHeartbeatTimer c)
         | Inr s \<Rightarrow>
             (None, in_store (setAgentStatus ''working'') ((resetHeartbeatTimer c)\<lparr>st := s\<rparr>)))
      else dispatch d (resetHeartbeatTimer c))"
  by (simp add: handleMessage_def Let_def)

lemma handle_null: "handleMessage PNull c = (Some TypeError, resetHeartbeatTimer c)"
  by (simp add: handleMessage_def Let_def)

lemma onmessage_wellformed:
  "ws_onmessage (WellFormed p) c =
     (None, case handleMessage p c of
              (None, c') \<Rightarrow> c'
            | (Some e, c') \<Rightarrow> console_log (LogParseFailed e) c')"
  by (simp add: ws_onmessage_def onmessage_try_def JSON_parse_def split: prod.splits option.splits)

lemma st_onmessage: "st (snd (ws_onmessage (WellFormed p) c)) = st (snd (handleMessage p c))"
  by (simp add: onmessage_wellformed split: prod.splits option.splits)

lemmas content_ops = or_value_def js_truthy_def js_trim_def to_string_def

text \<open>The store after each kind of message that can throw.\<close>

lemma st_agent_step:
  "st (snd (agent_step d c)) =
     (let kind = or_opt (step_type d) (msg_type d);
          s1 = addAgentStep (d\<lparr>msg_type := kind\<rparr>) (st c)
      in case js_trim (or_value (content d) []) of
           Inl e \<Rightarrow> s1
         | Inr text \<Rightarrow>
             if kind = Some ''thinking'' then
               s1\<lparr>agentStatus := ''thinking'',
                  liveAssistantContent := or_str (Some text) thinking_placeholder\<rparr>
             else if kind = Some ''llm_text'' then
               s1\<lparr>agentStatus := ''working'', liveAssistantContent := text\<rparr>
             else if kind = Some ''tool_call'' \<or> kind = Some ''tool_result'' then
               s1\<lparr>agentStatus := ''working''\<rparr>
             else s1)"
  by (simp add: agent_step_def Let_def store_actions or_str_def split: sum.splits)

lemma st_chunk:
  "msg_type d = Some ''agent_stream_chunk'' \<Longrightarrow>
   st (snd (handleMessage (PValue d) c)) =
     (case to_string (or_value (content d) []) of
        Inl e \<Rightarrow> st c
      | Inr t \<Rightarrow> (st c)\<lparr>streamingContent := streamingContent (st c) @ t,
                         agentStatus := ''working''\<rparr>)"
  by (auto simp: handle_value addStreamingChunk_def setAgentStatus_def content_ops
        or_str_def truthy_def split: option.splits jvalue.splits)

lemma onmessage_null:
  "ws_onmessage (WellFormed PNull) c =
     (None, console_log (LogParseFailed TypeError) (resetHeartbeatTimer c))"
  by (simp add: ws_onmessage_def onmessage_try_def JSON_parse_def handle_null)

lemma onmessage_malformed:
  "ws_onmessage Malformed c = (None, console_log (LogParseFailed SyntaxError) c)"
  by (simp add: ws_onmessage_def onmessage_try_def JSON_parse_def)

section \<open>Status is a function of the message history\<close>











section \<open>Streamed text accumulates\<close>

lemma chunk_step:
  "msg_type d = Some ''agent_stream_chunk'' \<Longrightarrow>
   streamingContent (st (snd (ws_onmessage (WellFormed (PValue d)) c))) =
     streamingContent (st c) @ chunk_text (content d)"
  by (simp add: st_onmessage st_chunk chunk_text_def content_ops
        split: option.splits jvalue.splits)

text \<open>
  Claim C4. After any sequence of \<open>agent_stream_chunk\<close> messages, \<open>streamingContent\<close> is
  what it was before them (the empty string after a clear) followed by the contents of
  the chunks in arrival order, where a chunk without content, or with the empty
  content, adds nothing. The content of a chunk is its string; a content that is not a
  string adds what \<open>chunk_text\<close> says. The chunks \<open>Hel\<close> and \<open>lo\<close> give \<open>Hello\<close>.
\<close>

theorem stream_chunks_accumulate:
  assumes "\<forall>d \<in> set ds. msg_type d = Some ''agent_stream_chunk''"
  shows "streamingContent (st (receive (map (\<lambda>d. WellFormed (PValue d)) ds) c)) =
           streamingContent (st c) @
             concat (map (\<lambda>d. chunk_text (content d)) ds)"
  using assms
proof (induction ds arbitrary: c)
  case Nil
  show ?case by simp
next
  case (Cons d ds)
  then show ?case by (simp add: chunk_step)
qed

theorem stream_chunks_accumulate_witness:
  "streamingContent (st (receive
     [WellFormed (PValue (msg ''agent_stream_chunk'' None (Some ''Hel''))),
      WellFormed (PValue (msg ''agent_stream_chunk'' None None)),
      WellFormed (PValue (msg ''agent_stream_chunk'' None (Some []))),
      WellFormed (PValue (msg ''agent_stream_chunk'' None (Some ''lo'')))]
     (initial_client ''https:'' ''example.org'' 0))) = ''Hello''"
  using stream_chunks_accumulate
    [of "[msg ''agent_stream_chunk'' None (Some ''Hel''), msg ''agent_stream_chunk'' None None,
          msg ''agent_stream_chunk'' None (Some []), msg ''agent_stream_chunk'' None (Some ''lo'')]"
        "initial_client ''https:'' ''example.org'' 0"]
  by (simp add: msg_def initial_client_def initial_store_def chunk_text_def)

section \<open>Terminal messages\<close>

text \<open>
  Claim C8. An \<open>agent_response\<close>, \<open>agent_stopped\<close> or \<open>error\<close> message appends exactly one
  chat message, stamped with the current time, and empties \<open>streamingContent\<close> and
  \<open>liveAssistantContent\<close>. The message has role \<open>assistant\<close> and the content of the
  payload for \<open>agent_response\<close>, role \<open>assistant\<close> and the content or, where that is
  absent, empty or otherwise falsy, the fallback text for \<open>agent_stopped\<close>, and role \<open>error\<close> for
  \<open>error\<close>. Apart from the status, nothing else in the store changes: the earlier chat
  messages and the step history stay as they were.
\<close>

theorem terminal_messages:
  assumes "msg_type d = Some ''agent_response'' \<or> msg_type d = Some ''agent_stopped'' \<or>
           msg_type d = Some ''error''"
  shows "st (snd (ws_onmessage (WellFormed (PValue d)) c)) =
     (st c)\<lparr>messages := messages (st c) @
              [\<lparr>role = (if msg_type d = Some ''error'' then ''error'' else ''assistant''),
                cm_content =
                  (if msg_type d = Some ''agent_stopped''
                   then (case content d of
                           None \<Rightarrow> Some (JString stopped_fallback)
                         | Some (JString s) \<Rightarrow>
                             if s = [] then Some (JString stopped_fallback)
                             else Some (JString s)
                         | Some (JOther t r) \<Rightarrow>
                             if t then Some (JOther t r) else Some (JString stopped_fallback))
                   else content d),
                images = None, attachedFiles = None, cm_id = clock c, timestamp = clock c\<rparr>],
            streamingContent := [], liveAssistantContent := [],
            agentStatus :=
              (if msg_type d = Some ''agent_response'' then ''done''
               else if msg_type d = Some ''agent_stopped'' then ''idle'' else ''error'')\<rparr>"
  using assms
  by (auto simp: st_onmessage handle_value dispatch_def store_actions content_ops
        split: option.splits jvalue.splits)

theorem terminal_messages_witness:
  "st (snd (ws_onmessage (WellFormed (PValue (msg ''agent_stopped'' None None)))
        ((initial_client ''https:'' ''example.org'' 7)
           \<lparr>st := initial_store\<lparr>streamingContent := ''par'', liveAssistantContent := ''x''\<rparr>\<rparr>))) =
     initial_store\<lparr>messages :=
        [\<lparr>role = ''assistant'', cm_content = Some (JString stopped_fallback), images = None,
          attachedFiles = None, cm_id = 7, timestamp = 7\<rparr>]\<rparr>"
  using terminal_messages
    [of "msg ''agent_stopped'' None None"
        "(initial_client ''https:'' ''example.org'' 7)
           \<lparr>st := initial_store\<lparr>streamingContent := ''par'', liveAssistantContent := ''x''\<rparr>\<rparr>"]
  by (simp add: msg_def initial_client_def initial_store_def)

section \<open>Frames that carry no recognized message\<close>

text \<open>
  Claim C9. No exception leaves \<^verbatim>\<open>ws.onmessage\<close>, whatever the frame and the state. A
  frame that does not parse is logged and changes nothing else. A frame that parses to
  \<^verbatim>\<open>null\<close> leaves the store as it is. A frame whose type is none of the recognized ones
  is logged as unknown and leaves the whole store, so the histories, the status and the
  buffers, as it is.
\<close>

theorem inbound_frames_never_crash:
  "fst (ws_onmessage f c) = None \<and>
   ws_onmessage Malformed c = (None, c\<lparr>console := console c @ [LogParseFailed SyntaxError]\<rparr>) \<and>
   st (snd (ws_onmessage (WellFormed PNull) c)) = st c \<and>
   (msg_type d \<notin> Some ` set recognized_types \<longrightarrow>
      st (snd (ws_onmessage (WellFormed (PValue d)) c)) = st c \<and>
      console (snd (ws_onmessage (WellFormed (PValue d)) c)) =
        console c @ [LogUnknownType (msg_type d)])"
proof -
  have total: "fst (ws_onmessage f c) = None"
    by (simp add: ws_onmessage_def split: prod.splits option.splits)
  have malformed:
    "ws_onmessage Malformed c = (None, c\<lparr>console := console c @ [LogParseFailed SyntaxError]\<rparr>)"
    by (simp add: onmessage_malformed console_log_def)
  have null: "st (snd (ws_onmessage (WellFormed PNull) c)) = st c"
    by (simp add: onmessage_null)
  have unknown: "st (snd (ws_onmessage (WellFormed (PValue d)) c)) = st c \<and>
      console (snd (ws_onmessage (WellFormed (PValue d)) c)) =
        console c @ [LogUnknownType (msg_type d)]"
    if "msg_type d \<notin> Some ` set recognized_types"
    using that
    by (auto simp: onmessage_wellformed handle_value dispatch_def recognized_types_def
          console_log_def)
  from total malformed null unknown show ?thesis by blast
qed

theorem inbound_frames_never_crash_witness:
  "msg_type (msg ''telemetry'' None None) \<notin> Some ` set recognized_types \<and>
   fst (ws_onmessage Malformed (initial_client ''https:'' ''example.org'' 0)) = None \<and>
   st (snd (ws_onmessage (WellFormed (PValue (msg ''telemetry'' None None)))
         (initial_client ''https:'' ''example.org'' 0))) = initial_store \<and>
   console (snd (ws_onmessage (WellFormed (PValue (msg ''telemetry'' None None)))
         (initial_client ''https:'' ''example.org'' 0))) = [LogUnknownType (Some ''telemetry'')]"
  using inbound_frames_never_crash
    [of Malformed "initial_client ''https:'' ''example.org'' 0" "msg ''telemetry'' None None"]
  by (simp add: msg_def initial_client_def recognized_types_def)

section \<open>Steps of an unknown kind\<close>

text \<open>
  Claim C10, as the code has it. An \<open>agent_step\<close> message whose \<open>step_type\<close> is none of
  \<open>thinking\<close>, \<open>llm_text\<close>, \<open>tool_call\<close>, \<open>tool_result\<close> is appended to the step history and
  changes nothing else in the store: the status and both buffers stay as they are. The
  kind recorded is the \<open>step_type\<close> when that is a non-empty string, and the message
  type \<open>agent_step\<close> when the \<open>step_type\<close> is absent or empty.
\<close>

theorem unknown_step_kind:
  assumes "msg_type d = Some ''agent_step''"
    and "step_type d \<notin> Some ` set fixed_kinds"
  shows "st (snd (ws_onmessage (WellFormed (PValue d)) c)) =
     (st c)\<lparr>agentSteps := agentSteps (st c) @
              [d\<lparr>msg_type := (case step_type d of
                                None \<Rightarrow> Some ''agent_step''
                              | Some k \<Rightarrow> if k = [] then Some ''agent_step'' else Some k)\<rparr>]\<rparr>"
proof -
  from assms(1) have "st (snd (ws_onmessage (WellFormed (PValue d)) c)) = st (snd (agent_step d c))"
    by (simp add: st_onmessage handle_value dispatch_def agent_step_def Let_def
          split: sum.splits)
  with assms show ?thesis
    by (cases "js_trim (or_value (content d) [])")
       (auto simp: st_agent_step Let_def addAgentStep_def or_opt_def truthy_def fixed_kinds_def
          split: option.splits)
qed

theorem unknown_step_kind_witness:
  "st (snd (ws_onmessage (WellFormed (PValue (msg ''agent_step'' (Some ''plan'') (Some ''x''))))
        (initial_client ''https:'' ''example.org'' 0))) =
     initial_store\<lparr>agentSteps := [msg ''plan'' (Some ''plan'') (Some ''x'')]\<rparr>"
  using unknown_step_kind
    [of "msg ''agent_step'' (Some ''plan'') (Some ''x'')"
        "initial_client ''https:'' ''example.org'' 0"]
  by (simp add: msg_def initial_client_def initial_store_def fixed_kinds_def)

text \<open>
  The kind is not always recorded as given: with the empty \<open>step_type\<close>, which is none
  of the four kinds, the step is recorded with the kind \<open>agent_step\<close>.
\<close>

theorem unknown_step_kind_counterexample:
  "msg_type (msg ''agent_step'' (Some []) None) = Some ''agent_step'' \<and>
   step_type (msg ''agent_step'' (Some []) None) \<notin> Some ` set fixed_kinds \<and>
   msg_type (last (agentSteps (st (snd (ws_onmessage
       (WellFormed (PValue (msg ''agent_step'' (Some []) None)))
       (initial_client ''https:'' ''example.org'' 0)))))) = Some ''agent_step'' \<and>
   msg_type (last (agentSteps (st (snd (ws_onmessage
       (WellFormed (PValue (msg ''agent_step'' (Some []) None)))
       (initial_client ''https:'' ''example.org'' 0)))))) \<noteq>
     step_type (msg ''agent_step'' (Some []) None)"
  by (simp add: st_onmessage handle_value dispatch_def st_agent_step content_ops store_actions
        or_opt_def truthy_def fixed_kinds_def msg_def initial_client_def initial_store_def)

section \<open>The two views of the step history\<close>

lemma has_activity:
  "has ACTIVITY_TYPES v \<longleftrightarrow>
     v = Some ''thinking'' \<or> v = Some ''tool_call'' \<or> v = Some ''tool_result'' \<or>
     v = Some ''error''"
  by (auto simp: has_def ACTIVITY_TYPES_def split: option.splits)

lemma has_dialog: "has DIALOG_TYPES v \<longleftrightarrow> v = Some ''llm_text'' \<or> v = Some ''response''"
  by (auto simp: has_def DIALOG_TYPES_def split: option.splits)

lemma has_fixed:
  "has fixed_kinds v \<longleftrightarrow>
     v = Some ''thinking'' \<or> v = Some ''llm_text'' \<or> v = Some ''tool_call'' \<or>
     v = Some ''tool_result''"
  by (auto simp: has_def fixed_kinds_def split: option.splits)

lemma mset_filter_split:
  "(\<And>x. P x \<Longrightarrow> Q x \<noteq> R x) \<Longrightarrow>
   mset (filter (\<lambda>x. P x \<and> Q x) xs) + mset (filter (\<lambda>x. P x \<and> R x) xs) = mset (filter P xs)"
  by (induction xs) auto

text \<open>
  Claim C3. A step of the history whose kind is one of the four fixed kinds is in
  exactly one of the Activity view and the Dialogue view: in the Activity view when its
  kind is \<open>thinking\<close>, \<open>tool_call\<close> or \<open>tool_result\<close>, in the Dialogue view when it is
  \<open>llm_text\<close>. Beyond the four kinds the Activity view also takes the kind \<open>error\<close>
  and the Dialogue view the kind \<open>response\<close>. No step of any kind is in both views.
  Over the fixed kinds the two views together hold each step of the history as often
  as the history does. Both views are determined by the step history alone.
\<close>

theorem views_partition_steps:
  "(\<forall>x \<in> set (agentSteps s). has fixed_kinds (msg_type x) \<longrightarrow>
      (x \<in> set (activitySteps s)) \<noteq> (x \<in> set (dialogSteps s))) \<and>
   (\<forall>x \<in> set (agentSteps s). has fixed_kinds (msg_type x) \<longrightarrow>
      (x \<in> set (activitySteps s) \<longleftrightarrow>
         msg_type x = Some ''thinking'' \<or> msg_type x = Some ''tool_call'' \<or>
         msg_type x = Some ''tool_result'') \<and>
      (x \<in> set (dialogSteps s) \<longleftrightarrow> msg_type x = Some ''llm_text'')) \<and>
   set (activitySteps s) =
     {x \<in> set (agentSteps s).
        msg_type x = Some ''thinking'' \<or> msg_type x = Some ''tool_call'' \<or>
        msg_type x = Some ''tool_result'' \<or> msg_type x = Some ''error''} \<and>
   set (dialogSteps s) =
     {x \<in> set (agentSteps s).
        msg_type x = Some ''llm_text'' \<or> msg_type x = Some ''response''} \<and>
   set (activitySteps s) \<inter> set (dialogSteps s) = {} \<and>
   mset (filter (\<lambda>x. has fixed_kinds (msg_type x)) (activitySteps s)) +
     mset (filter (\<lambda>x. has fixed_kinds (msg_type x)) (dialogSteps s)) =
     mset (filter (\<lambda>x. has fixed_kinds (msg_type x)) (agentSteps s)) \<and>
   (agentSteps s = agentSteps s' \<longrightarrow>
      activitySteps s = activitySteps s' \<and> dialogSteps s = dialogSteps s')"
proof -
  have selects: "set (activitySteps s) =
     {x \<in> set (agentSteps s).
        msg_type x = Some ''thinking'' \<or> msg_type x = Some ''tool_call'' \<or>
        msg_type x = Some ''tool_result'' \<or> msg_type x = Some ''error''}"
    "set (dialogSteps s) =
     {x \<in> set (agentSteps s).
        msg_type x = Some ''llm_text'' \<or> msg_type x = Some ''response''}"
    by (auto simp: activitySteps_def dialogSteps_def has_activity has_dialog)
  have one: "\<forall>x \<in> set (agentSteps s). has fixed_kinds (msg_type x) \<longrightarrow>
      (x \<in> set (activitySteps s)) \<noteq> (x \<in> set (dialogSteps s))"
    by (auto simp: activitySteps_def dialogSteps_def has_activity has_dialog has_fixed)
  have which: "\<forall>x \<in> set (agentSteps s). has fixed_kinds (msg_type x) \<longrightarrow>
      (x \<in> set (activitySteps s) \<longleftrightarrow>
         msg_type x = Some ''thinking'' \<or> msg_type x = Some ''tool_call'' \<or>
         msg_type x = Some ''tool_result'') \<and>
      (x \<in> set (dialogSteps s) \<longleftrightarrow> msg_type x = Some ''llm_text'')"
    by (auto simp: activitySteps_def dialogSteps_def has_activity has_dialog has_fixed)
  have disjoint: "set (activitySteps s) \<inter> set (dialogSteps s) = {}"
    by (auto simp: activitySteps_def dialogSteps_def has_activity has_dialog)
  have "mset (filter (\<lambda>x. has fixed_kinds (msg_type x) \<and> has ACTIVITY_TYPES (msg_type x))
                (agentSteps s)) +
        mset (filter (\<lambda>x. has fixed_kinds (msg_type x) \<and> has DIALOG_TYPES (msg_type x))
                (agentSteps s)) =
        mset (filter (\<lambda>x. has fixed_kinds (msg_type x)) (agentSteps s))"
    by (rule mset_filter_split) (auto simp: has_activity has_dialog has_fixed)
  then have cover: "mset (filter (\<lambda>x. has fixed_kinds (msg_type x)) (activitySteps s)) +
     mset (filter (\<lambda>x. has fixed_kinds (msg_type x)) (dialogSteps s)) =
     mset (filter (\<lambda>x. has fixed_kinds (msg_type x)) (agentSteps s))"
    by (simp add: activitySteps_def dialogSteps_def conj_commute)
  have pure: "agentSteps s = agentSteps s' \<longrightarrow>
      activitySteps s = activitySteps s' \<and> dialogSteps s = dialogSteps s'"
    by (simp add: activitySteps_def dialogSteps_def)
  from one which selects disjoint cover pure show ?thesis by blast
qed

theorem views_partition_steps_witness:
  "set (agentSteps (initial_store\<lparr>agentSteps :=
      [msg ''thinking'' (Some ''thinking'') None, msg ''llm_text'' (Some ''llm_text'') None,
       msg ''tool_call'' (Some ''tool_call'') None]\<rparr>)) \<noteq> {} \<and>
   activitySteps (initial_store\<lparr>agentSteps :=
      [msg ''thinking'' (Some ''thinking'') None, msg ''llm_text'' (Some ''llm_text'') None,
       msg ''tool_call'' (Some ''tool_call'') None]\<rparr>) =
     [msg ''thinking'' (Some ''thinking'') None, msg ''tool_call'' (Some ''tool_call'') None] \<and>
   dialogSteps (initial_store\<lparr>agentSteps :=
      [msg ''thinking'' (Some ''thinking'') None, msg ''llm_text'' (Some ''llm_text'') None,
       msg ''tool_call'' (Some ''tool_call'') None]\<rparr>) =
     [msg ''llm_text'' (Some ''llm_text'') None] \<and>
   set (activitySteps (initial_store\<lparr>agentSteps :=
      [msg ''thinking'' (Some ''thinking'') None, msg ''llm_text'' (Some ''llm_text'') None,
       msg ''tool_call'' (Some ''tool_call'') None]\<rparr>)) \<inter>
   set (dialogSteps (initial_store\<lparr>agentSteps :=
      [msg ''thinking'' (Some ''thinking'') None, msg ''llm_text'' (Some ''llm_text'') None,
       msg ''tool_call'' (Some ''tool_call'') None]\<rparr>)) = {}"
  using views_partition_steps
    [of "initial_store\<lparr>agentSteps :=
      [msg ''thinking'' (Some ''thinking'') None, msg ''llm_text'' (Some ''llm_text'') None,
       msg ''tool_call'' (Some ''tool_call'') None]\<rparr>"
     "initial_store\<lparr>agentSteps :=
      [msg ''thinking'' (Some ''thinking'') None, msg ''llm_text'' (Some ''llm_text'') None,
       msg ''tool_call'' (Some ''tool_call'') None]\<rparr>", THEN conjunct1]
  by (simp add: activitySteps_def dialogSteps_def has_activity has_dialog msg_def)

section \<open>The invariants hold in every reachable state\<close>

subsection \<open>Timer lists\<close>

lemma length_cancel [simp]: "length (cancel h ts) = length ts"
  by (simp add: cancel_def)

lemma callback_cancel [simp]: "callback (cancel h ts ! i) = callback (ts ! i)"
  by (cases "i = h") (simp_all add: cancel_def)

lemma pending_cancel [simp]:
  "pending (cancel h ts ! i) = (pending (ts ! i) \<and> \<not> (i = h \<and> h < length ts))"
  by (cases "i = h") (simp_all add: cancel_def)

lemma delay_cancel [simp]: "delay (cancel h ts ! i) = delay (ts ! i)"
  by (cases "i = h") (simp_all add: cancel_def)

lemma pending_heartbeats_cancel [simp]:
  "pending_heartbeats (cancel h ts) = pending_heartbeats ts - {h}"
  by (auto simp: pending_heartbeats_def)

lemma pending_reconnects_cancel [simp]:
  "pending_reconnects (cancel h ts) = pending_reconnects ts - {h}"
  by (auto simp: pending_reconnects_def)

lemma heartbeat_ids_cancel [simp]: "heartbeat_ids (cancel h ts) = heartbeat_ids ts"
  by (auto simp: heartbeat_ids_def)

lemma pending_heartbeats_snoc [simp]:
  "pending_heartbeats (ts @ [t]) =
     pending_heartbeats ts \<union>
     (if pending t \<and> callback t = HeartbeatExpired then {length ts} else {})"
  by (auto simp: pending_heartbeats_def nth_append less_Suc_eq)

lemma pending_reconnects_snoc [simp]:
  "pending_reconnects (ts @ [t]) =
     pending_reconnects ts \<union>
     (if pending t \<and> callback t \<noteq> HeartbeatExpired then {length ts} else {})"
  by (auto simp: pending_reconnects_def nth_append less_Suc_eq)

lemma heartbeat_ids_snoc [simp]:
  "heartbeat_ids (ts @ [t]) =
     heartbeat_ids ts \<union> (if callback t = HeartbeatExpired then {length ts} else {})"
  by (auto simp: heartbeat_ids_def nth_append less_Suc_eq)

lemma ids_bounded:
  "i \<in> pending_heartbeats ts \<Longrightarrow> i < length ts"
  "i \<in> pending_reconnects ts \<Longrightarrow> i < length ts"
  "i \<in> heartbeat_ids ts \<Longrightarrow> i < length ts"
  by (simp_all add: pending_heartbeats_def pending_reconnects_def heartbeat_ids_def)

lemma length_not_in [simp]:
  "length ts \<notin> pending_heartbeats ts" "length ts \<notin> pending_reconnects ts"
  "length ts \<notin> heartbeat_ids ts"
  by (simp_all add: pending_heartbeats_def pending_reconnects_def heartbeat_ids_def)

lemma pending_disjoint: "i \<in> pending_reconnects ts \<Longrightarrow> i \<notin> heartbeat_ids ts"
  by (simp add: pending_reconnects_def heartbeat_ids_def)

subsection \<open>Resetting the watchdog\<close>

lemma resetHeartbeatTimer_timers:
  "timers (resetHeartbeatTimer c) =
     (case heartbeatTimer c of None \<Rightarrow> timers c | Some h \<Rightarrow> cancel h (timers c)) @
     [\<lparr>callback = HeartbeatExpired, delay = 45000, pending = True\<rparr>]"
  "heartbeatTimer (resetHeartbeatTimer c) = Some (length (timers c))"
  "reconnectTimeout (resetHeartbeatTimer c) = reconnectTimeout c"
  "sockets (resetHeartbeatTimer c) = sockets c"
  "wsRef (resetHeartbeatTimer c) = wsRef c"
  by (simp_all add: resetHeartbeatTimer_def setTimeout_def clearTimeout_def
        HEARTBEAT_TIMEOUT_MS_def split: option.splits)

lemma timers_resetHeartbeatTimer: "timers_ok c \<Longrightarrow> timers_ok (resetHeartbeatTimer c)"
  by (cases "heartbeatTimer c")
     (auto simp: timers_ok_def resetHeartbeatTimer_timers dest: pending_disjoint)

subsection \<open>Socket lists\<close>

lemma live_WebSocket_close [simp]: "\<not> live (WebSocket_close code sk)"
  by (cases "ready sk") (simp_all add: live_def WebSocket_close_def)

lemma live_sockets_snoc [simp]:
  "live_sockets (ss @ [sk]) = live_sockets ss \<union> (if live sk then {length ss} else {})"
  by (auto simp: live_sockets_def nth_append less_Suc_eq)

lemma live_sockets_update:
  "live_sockets (ss[w := sk]) =
     (if w < length ss then (live_sockets ss - {w}) \<union> (if live sk then {w} else {})
      else live_sockets ss)"
  by (auto simp: live_sockets_def nth_list_update)

lemma length_not_live [simp]: "length ss \<notin> live_sockets ss"
  by (simp add: live_sockets_def)

lemma live_socketsD: "i \<in> live_sockets ss \<Longrightarrow> i < length ss \<and> live (ss ! i)"
  by (simp add: live_sockets_def)

subsection \<open>What each handler changes\<close>

lemma connect_noop:
  "\<not> truthy p \<or> isConnectingRef c \<or>
   (\<exists>w. wsRef c = Some w \<and> live (sockets c ! w)) \<Longrightarrow> connect p c = c"
  by (auto simp: connect_def live_def)

lemma connect_new:
  assumes "truthy p" "\<not> isConnectingRef c"
    and "\<forall>w. wsRef c = Some w \<longrightarrow> \<not> live (sockets c ! w)"
  shows "sockets (connect p c) =
           (case wsRef c of
              None \<Rightarrow> sockets c
            | Some w \<Rightarrow> (sockets c)[w := WebSocket_close None (sockets c ! w)]) @
           [\<lparr>url = (if location_protocol c = ''https:'' then ''wss:'' else ''ws:'') @ ''//'' @
                   location_host c @ ''/ws/chat/'' @ or_str p [],
             ready = CONNECTING, closure_projectId = p, close_code = None, sent = []\<rparr>]"
    and "wsRef (connect p c) = Some (length (sockets c))"
    and "timers (connect p c) =
           (case reconnectTimeout c of None \<Rightarrow> timers c | Some t \<Rightarrow> cancel t (timers c))"
    and "reconnectTimeout (connect p c) = None"
    and "heartbeatTimer (connect p c) = heartbeatTimer c"
    and "st (connect p c) = st c"
    and "isConnectingRef (connect p c)"
  using assms
  by (auto simp: connect_def Let_def new_WebSocket_def ws_close_def clearTimeout_def
        console_log_def live_def split: option.splits)

lemma connect_either:
  "connect p c = c \<or>
   (truthy p \<and> \<not> isConnectingRef c \<and> (\<forall>w. wsRef c = Some w \<longrightarrow> \<not> live (sockets c ! w)))"
  using connect_noop [of p c] by blast

lemma cleanup_footprint:
  "timers (cleanup c) =
     (case reconnectTimeout c of
        None \<Rightarrow> (case heartbeatTimer c of None \<Rightarrow> timers c | Some h \<Rightarrow> cancel h (timers c))
      | Some t \<Rightarrow>
          cancel t (case heartbeatTimer c of None \<Rightarrow> timers c | Some h \<Rightarrow> cancel h (timers c)))"
  "heartbeatTimer (cleanup c) = None"
  "reconnectTimeout (cleanup c) = None"
  "sockets (cleanup c) =
     (case wsRef c of
        None \<Rightarrow> sockets c
      | Some w \<Rightarrow> (sockets c)[w := WebSocket_close (Some 1000) (sockets c ! w)])"
  "wsRef (cleanup c) = None"
  "st (cleanup c) = st c"
  by (simp_all add: cleanup_def clearTimeout_def ws_close_def split: option.splits)

lemma ws_onclose_footprint:
  "timers (ws_onclose w code c) =
     (case heartbeatTimer c of None \<Rightarrow> timers c | Some h \<Rightarrow> cancel h (timers c)) @
     (if code \<noteq> 1000 \<and> reconnectTimeout c = None \<and> wsRef c = Some w
      then [\<lparr>callback = Reconnect (closure_projectId (sockets c ! w)),
             delay = (if code = 4000 then 1000 else 5000), pending = True\<rparr>]
      else [])"
  "heartbeatTimer (ws_onclose w code c) = heartbeatTimer c"
  "reconnectTimeout (ws_onclose w code c) =
     (if code \<noteq> 1000 \<and> reconnectTimeout c = None \<and> wsRef c = Some w
      then Some (length (timers c)) else reconnectTimeout c)"
  "sockets (ws_onclose w code c) = sockets c"
  "wsRef (ws_onclose w code c) = wsRef c"
  "st (ws_onclose w code c) = setWs None (st c)"
  by (simp_all add: ws_onclose_def clearTimeout_def setTimeout_def console_log_def
        in_store_def Let_def split: option.splits)

lemma ws_onopen_footprint:
  "timers (ws_onopen w c) =
     (case heartbeatTimer c of None \<Rightarrow> timers c | Some h \<Rightarrow> cancel h (timers c)) @
     [\<lparr>callback = HeartbeatExpired, delay = 45000, pending = True\<rparr>]"
  "heartbeatTimer (ws_onopen w c) = Some (length (timers c))"
  "reconnectTimeout (ws_onopen w c) = reconnectTimeout c"
  "sockets (ws_onopen w c) = sockets c"
  "wsRef (ws_onopen w c) = wsRef c"
  "st (ws_onopen w c) = setWs (Some w) (st c)"
  by (simp_all add: ws_onopen_def resetHeartbeatTimer_timers console_log_def in_store_def
        split: option.splits)

lemma ws_onerror_footprint:
  "timers (ws_onerror w c) = timers c"
  "heartbeatTimer (ws_onerror w c) = heartbeatTimer c"
  "reconnectTimeout (ws_onerror w c) = reconnectTimeout c"
  "sockets (ws_onerror w c) = sockets c"
  "wsRef (ws_onerror w c) = wsRef c"
  "st (ws_onerror w c) = st c"
  by (simp_all add: ws_onerror_def console_log_def)

lemma heartbeat_expired_footprint:
  "timers (heartbeat_expired c) = timers c"
  "heartbeatTimer (heartbeat_expired c) = heartbeatTimer c"
  "reconnectTimeout (heartbeat_expired c) = reconnectTimeout c"
  "sockets (heartbeat_expired c) =
     (case wsRef c of
        None \<Rightarrow> sockets c
      | Some w \<Rightarrow>
          if ready (sockets c ! w) = OPEN
          then (sockets c)[w := WebSocket_close (Some 4000) (sockets c ! w)]
          else sockets c)"
  "wsRef (heartbeat_expired c) = wsRef c"
  "st (heartbeat_expired c) = st c"
  by (simp_all add: heartbeat_expired_def ws_close_def console_log_def split: option.splits)

lemma set_ready_footprint:
  "timers (set_ready w r c) = timers c"
  "heartbeatTimer (set_ready w r c) = heartbeatTimer c"
  "reconnectTimeout (set_ready w r c) = reconnectTimeout c"
  "sockets (set_ready w r c) = (sockets c)[w := (sockets c ! w)\<lparr>ready := r\<rparr>]"
  "wsRef (set_ready w r c) = wsRef c"
  "st (set_ready w r c) = st c"
  by (simp_all add: set_ready_def)

lemma agent_step_footprint:
  "timers (snd (agent_step d c)) = timers c"
  "heartbeatTimer (snd (agent_step d c)) = heartbeatTimer c"
  "reconnectTimeout (snd (agent_step d c)) = reconnectTimeout c"
  "sockets (snd (agent_step d c)) = sockets c"
  "wsRef (snd (agent_step d c)) = wsRef c"
  "ws (st (snd (agent_step d c))) = ws (st c)"
  by (simp_all add: agent_step_def store_actions in_store_def Let_def split: sum.splits)

lemma dispatch_footprint:
  "timers (snd (dispatch d c)) = timers c"
  "heartbeatTimer (snd (dispatch d c)) = heartbeatTimer c"
  "reconnectTimeout (snd (dispatch d c)) = reconnectTimeout c"
  "sockets (snd (dispatch d c)) = sockets c"
  "wsRef (snd (dispatch d c)) = wsRef c"
  "ws (st (snd (dispatch d c))) = ws (st c)"
  by (simp_all add: dispatch_def agent_step_footprint store_actions in_store_def console_log_def
        Let_def)

lemma handleMessage_footprint:
  "timers (snd (handleMessage p c)) = timers (resetHeartbeatTimer c)"
  "heartbeatTimer (snd (handleMessage p c)) = heartbeatTimer (resetHeartbeatTimer c)"
  "reconnectTimeout (snd (handleMessage p c)) = reconnectTimeout c"
  "sockets (snd (handleMessage p c)) = sockets c"
  "wsRef (snd (handleMessage p c)) = wsRef c"
  "ws (st (snd (handleMessage p c))) = ws (st c)"
  by (cases p;
      simp add: handle_null handle_value dispatch_footprint resetHeartbeatTimer_timers
        in_store_def store_actions split: sum.splits)+

lemma onmessage_wellformed_fields:
  "timers (snd (ws_onmessage (WellFormed p) c)) = timers (snd (handleMessage p c))"
  "heartbeatTimer (snd (ws_onmessage (WellFormed p) c)) = heartbeatTimer (snd (handleMessage p c))"
  "reconnectTimeout (snd (ws_onmessage (WellFormed p) c)) =
     reconnectTimeout (snd (handleMessage p c))"
  "sockets (snd (ws_onmessage (WellFormed p) c)) = sockets (snd (handleMessage p c))"
  "wsRef (snd (ws_onmessage (WellFormed p) c)) = wsRef (snd (handleMessage p c))"
  by (cases "handleMessage p c"; cases "fst (handleMessage p c)";
      simp add: onmessage_wellformed console_log_def)+

lemma ws_onmessage_footprint:
  "timers (snd (ws_onmessage f c)) =
     (if f = Malformed then timers c else timers (resetHeartbeatTimer c))"
  "heartbeatTimer (snd (ws_onmessage f c)) =
     (if f = Malformed then heartbeatTimer c else heartbeatTimer (resetHeartbeatTimer c))"
  "reconnectTimeout (snd (ws_onmessage f c)) = reconnectTimeout c"
  "sockets (snd (ws_onmessage f c)) = sockets c"
  "wsRef (snd (ws_onmessage f c)) = wsRef c"
  "ws (st (snd (ws_onmessage f c))) = ws (st c)"
  by (cases f;
      simp add: onmessage_malformed console_log_def onmessage_wellformed_fields st_onmessage
        handleMessage_footprint)+

subsection \<open>Every event preserves the timer invariant\<close>

lemma timers_ok_frame:
  "timers c' = timers c \<Longrightarrow> heartbeatTimer c' = heartbeatTimer c \<Longrightarrow>
   reconnectTimeout c' = reconnectTimeout c \<Longrightarrow> timers_ok c \<Longrightarrow> timers_ok c'"
  by (simp add: timers_ok_def)

lemma timers_connect: "timers_ok c \<Longrightarrow> timers_ok (connect p c)"
  using connect_either [of p c]
proof
  assume "connect p c = c" and "timers_ok c"
  then show ?thesis by simp
next
  assume new: "truthy p \<and> \<not> isConnectingRef c \<and>
      (\<forall>w. wsRef c = Some w \<longrightarrow> \<not> live (sockets c ! w))"
    and ok: "timers_ok c"
  from new have n: "truthy p" "\<not> isConnectingRef c"
    "\<forall>w. wsRef c = Some w \<longrightarrow> \<not> live (sockets c ! w)"
    by simp_all
  note * = connect_new(3-5) [OF n]
  from ok show ?thesis
    by (cases "reconnectTimeout c") (auto simp: timers_ok_def * dest: pending_disjoint)
qed

lemma timers_cleanup: "timers_ok c \<Longrightarrow> timers_ok (cleanup c)"
  by (cases "reconnectTimeout c"; cases "heartbeatTimer c")
     (auto simp: timers_ok_def cleanup_footprint)

lemma timers_ws_onclose: "timers_ok c \<Longrightarrow> timers_ok (ws_onclose w code c)"
  by (cases "heartbeatTimer c")
     (auto simp: timers_ok_def ws_onclose_footprint dest: pending_disjoint)

lemma timers_ws_onopen: "timers_ok c \<Longrightarrow> timers_ok (ws_onopen w c)"
  by (cases "heartbeatTimer c")
     (auto simp: timers_ok_def ws_onopen_footprint dest: pending_disjoint)

lemma timers_ws_onmessage: "timers_ok c \<Longrightarrow> timers_ok (snd (ws_onmessage f c))"
proof (cases "f = Malformed")
  case True
  assume "timers_ok c"
  then show ?thesis
    by (rule timers_ok_frame [rotated 3]) (simp_all add: ws_onmessage_footprint True)
next
  case False
  assume "timers_ok c"
  then have "timers_ok (resetHeartbeatTimer c)" by (rule timers_resetHeartbeatTimer)
  then show ?thesis
    by (rule timers_ok_frame [rotated 3])
       (simp_all add: ws_onmessage_footprint False resetHeartbeatTimer_timers)
qed

lemma timers_timer_fires:
  assumes "timers_ok c" "t < length (timers c)" "pending (timers c ! t)"
  shows "timers_ok (run_callback (callback (timers c ! t)) (c\<lparr>timers := cancel t (timers c)\<rparr>))"
proof (cases "callback (timers c ! t)")
  case HeartbeatExpired
  with assms have "t \<notin> pending_reconnects (timers c)"
    by (simp add: pending_reconnects_def)
  with assms have "timers_ok (c\<lparr>timers := cancel t (timers c)\<rparr>)"
    by (auto simp: timers_ok_def)
  then have "timers_ok (heartbeat_expired (c\<lparr>timers := cancel t (timers c)\<rparr>))"
    by (rule timers_ok_frame [rotated 3]) (simp_all add: heartbeat_expired_footprint)
  with HeartbeatExpired show ?thesis by (simp add: run_callback_def)
next
  case (Reconnect p)
  with assms have "t \<in> pending_reconnects (timers c)" "t \<notin> pending_heartbeats (timers c)"
    by (simp_all add: pending_reconnects_def pending_heartbeats_def)
  with assms(1) have "timers_ok (c\<lparr>timers := cancel t (timers c), reconnectTimeout := None\<rparr>)"
    by (auto simp: timers_ok_def)
  then have "timers_ok (connect p (c\<lparr>timers := cancel t (timers c), reconnectTimeout := None\<rparr>))"
    by (rule timers_connect)
  with Reconnect show ?thesis by (simp add: run_callback_def reconnect_fired_def)
qed

lemma ready_update_sent [simp]:
  "ready (ss[w := (ss ! w)\<lparr>sent := x\<rparr>] ! i) = ready (ss ! i)"
  by (cases "w < length ss"; cases "i = w") (simp_all add: list_update_beyond)

lemma ws_send_footprint:
  "timers (snd (ws_send w d c)) = timers c"
  "heartbeatTimer (snd (ws_send w d c)) = heartbeatTimer c"
  "reconnectTimeout (snd (ws_send w d c)) = reconnectTimeout c"
  "wsRef (snd (ws_send w d c)) = wsRef c"
  "st (snd (ws_send w d c)) = st c"
  "clock (snd (ws_send w d c)) = clock c"
  "length (sockets (snd (ws_send w d c))) = length (sockets c)"
  "ready (sockets (snd (ws_send w d c)) ! i) = ready (sockets c ! i)"
  by (simp_all add: ws_send_def nth_list_update)

lemma sendMessage_footprint:
  "timers (snd (sendMessage m imgs files c)) = timers c"
  "heartbeatTimer (snd (sendMessage m imgs files c)) = heartbeatTimer c"
  "reconnectTimeout (snd (sendMessage m imgs files c)) = reconnectTimeout c"
  "wsRef (snd (sendMessage m imgs files c)) = wsRef c"
  "ws (st (snd (sendMessage m imgs files c))) = ws (st c)"
  "length (sockets (snd (sendMessage m imgs files c))) = length (sockets c)"
  "ready (sockets (snd (sendMessage m imgs files c)) ! i) = ready (sockets c ! i)"
  by (auto simp: sendMessage_def ws_send_def Let_def in_store_def store_actions
        nth_list_update split: option.splits)

lemma stopAgent_footprint:
  "timers (snd (stopAgent c)) = timers c"
  "heartbeatTimer (snd (stopAgent c)) = heartbeatTimer c"
  "reconnectTimeout (snd (stopAgent c)) = reconnectTimeout c"
  "wsRef (snd (stopAgent c)) = wsRef c"
  "ws (st (snd (stopAgent c))) = ws (st c)"
  "length (sockets (snd (stopAgent c))) = length (sockets c)"
  "ready (sockets (snd (stopAgent c)) ! i) = ready (sockets c ! i)"
  by (auto simp: stopAgent_def ws_send_def Let_def in_store_def nth_list_update
        split: option.splits)

lemma timers_fire: "timers_ok c \<Longrightarrow> timers_ok (fire e c)"
proof (cases e)
  case (Effect p)
  assume "timers_ok c"
  with Effect show ?thesis by (simp add: fire_def effect_def timers_connect)
next
  case Cleanup
  assume "timers_ok c"
  with Cleanup show ?thesis by (simp add: fire_def timers_cleanup)
next
  case (SocketOpens w)
  assume "timers_ok c"
  then have "timers_ok (set_ready w OPEN c)"
    by (rule timers_ok_frame [rotated 3]) (simp_all add: set_ready_footprint)
  with SocketOpens \<open>timers_ok c\<close> show ?thesis by (simp add: fire_def timers_ws_onopen)
next
  case (SocketDelivers w f)
  assume "timers_ok c"
  with SocketDelivers show ?thesis by (simp add: fire_def timers_ws_onmessage)
next
  case (SocketCloses w code)
  assume "timers_ok c"
  then have "timers_ok (set_ready w CLOSED c)"
    by (rule timers_ok_frame [rotated 3]) (simp_all add: set_ready_footprint)
  with SocketCloses \<open>timers_ok c\<close> show ?thesis by (simp add: fire_def timers_ws_onclose)
next
  case (SocketFails w code)
  assume "timers_ok c"
  then have "timers_ok (set_ready w CLOSED c)"
    by (rule timers_ok_frame [rotated 3]) (simp_all add: set_ready_footprint)
  then have "timers_ok (ws_onerror w (set_ready w CLOSED c))"
    by (rule timers_ok_frame [rotated 3]) (simp_all add: ws_onerror_footprint)
  with SocketFails \<open>timers_ok c\<close> show ?thesis by (simp add: fire_def timers_ws_onclose)
next
  case (TimerFires t)
  assume "timers_ok c"
  with TimerFires show ?thesis by (simp add: fire_def timers_timer_fires)
next
  case (UserSends m i f)
  assume "timers_ok c"
  then have "timers_ok (snd (sendMessage m i f c))"
    by (rule timers_ok_frame [rotated 3]) (simp_all add: sendMessage_footprint)
  with UserSends show ?thesis by (simp add: fire_def)
next
  case UserStops
  assume "timers_ok c"
  then have "timers_ok (snd (stopAgent c))"
    by (rule timers_ok_frame [rotated 3]) (simp_all add: stopAgent_footprint)
  with UserStops show ?thesis by (simp add: fire_def)
next
  case UserLogsOut
  assume "timers_ok c"
  then have "timers_ok (in_store logout c)"
    by (rule timers_ok_frame [rotated 3]) (simp_all add: in_store_def)
  with UserLogsOut show ?thesis by (simp add: fire_def)
next
  case (ProjectCreated p)
  assume "timers_ok c"
  then have "timers_ok (in_store (createProject_done p) c)"
    by (rule timers_ok_frame [rotated 3]) (simp_all add: in_store_def)
  with ProjectCreated show ?thesis by (simp add: fire_def)
next
  case (ClockAdvances n)
  assume "timers_ok c"
  then have "timers_ok (c\<lparr>clock := clock c + n\<rparr>)"
    by (rule timers_ok_frame [rotated 3]) simp_all
  with ClockAdvances show ?thesis by (simp add: fire_def)
qed

subsection \<open>Every event preserves the socket invariant\<close>

lemma sockets_ok_frame:
  "sockets c' = sockets c \<Longrightarrow> wsRef c' = wsRef c \<Longrightarrow> sockets_ok c \<Longrightarrow> sockets_ok c'"
  by (simp add: sockets_ok_def)

lemma live_sockets_cong:
  "length ss' = length ss \<Longrightarrow> (\<And>i. ready (ss' ! i) = ready (ss ! i)) \<Longrightarrow>
   live_sockets ss' = live_sockets ss"
  by (simp add: live_sockets_def live_def)

lemma live_sockets_close [simp]:
  "live_sockets (ss[w := WebSocket_close code (ss ! w)]) = live_sockets ss - {w}"
  by (auto simp: live_sockets_update dest: live_socketsD)

lemma live_sockets_set_ready:
  "w < length ss \<Longrightarrow>
   live_sockets (ss[w := (ss ! w)\<lparr>ready := r\<rparr>]) =
     (if r = CONNECTING \<or> r = OPEN then insert w (live_sockets ss) else live_sockets ss - {w})"
  by (auto simp: live_sockets_update live_def)

lemma sockets_connect: "sockets_ok c \<Longrightarrow> sockets_ok (connect p c)"
  using connect_either [of p c]
proof
  assume "connect p c = c" and "sockets_ok c"
  then show ?thesis by simp
next
  assume new: "truthy p \<and> \<not> isConnectingRef c \<and>
      (\<forall>w. wsRef c = Some w \<longrightarrow> \<not> live (sockets c ! w))"
    and ok: "sockets_ok c"
  from new have n: "truthy p" "\<not> isConnectingRef c"
    "\<forall>w. wsRef c = Some w \<longrightarrow> \<not> live (sockets c ! w)"
    by simp_all
  note * = connect_new(1,2) [OF n]
  from ok n(3) show ?thesis
    by (cases "wsRef c") (auto simp: sockets_ok_def * live_def dest: live_socketsD)
qed

lemma sockets_cleanup: "sockets_ok c \<Longrightarrow> sockets_ok (cleanup c)"
  by (cases "wsRef c") (auto simp: sockets_ok_def cleanup_footprint)

lemma sockets_heartbeat_expired: "sockets_ok c \<Longrightarrow> sockets_ok (heartbeat_expired c)"
  by (cases "wsRef c") (auto simp: sockets_ok_def heartbeat_expired_footprint)

lemma sockets_set_ready_OPEN:
  assumes "sockets_ok c" "w < length (sockets c)" "ready (sockets c ! w) = CONNECTING"
  shows "sockets_ok (set_ready w OPEN c)"
proof -
  from assms(2,3) have "w \<in> live_sockets (sockets c)"
    by (simp add: live_sockets_def live_def)
  with assms(1,2) show ?thesis
    by (auto simp: sockets_ok_def set_ready_footprint live_sockets_set_ready)
qed

lemma sockets_set_ready_CLOSED:
  "sockets_ok c \<Longrightarrow> w < length (sockets c) \<Longrightarrow> sockets_ok (set_ready w CLOSED c)"
  by (auto simp: sockets_ok_def set_ready_footprint live_sockets_set_ready)

lemma sockets_fire: "sockets_ok c \<Longrightarrow> sockets_ok (fire e c)"
proof (cases e)
  case (Effect p)
  assume "sockets_ok c"
  with Effect show ?thesis by (simp add: fire_def effect_def sockets_connect)
next
  case Cleanup
  assume "sockets_ok c"
  with Cleanup show ?thesis by (simp add: fire_def sockets_cleanup)
next
  case (SocketOpens w)
  assume ok: "sockets_ok c"
  show ?thesis
  proof (cases "w < length (sockets c) \<and> ready (sockets c ! w) = CONNECTING")
    case True
    with ok have "sockets_ok (set_ready w OPEN c)" by (simp add: sockets_set_ready_OPEN)
    then have "sockets_ok (ws_onopen w (set_ready w OPEN c))"
      by (rule sockets_ok_frame [rotated 2]) (simp_all add: ws_onopen_footprint)
    with True SocketOpens show ?thesis by (simp add: fire_def)
  next
    case False
    with ok SocketOpens show ?thesis by (auto simp: fire_def)
  qed
next
  case (SocketDelivers w f)
  assume ok: "sockets_ok c"
  then have "sockets_ok (snd (ws_onmessage f c))"
    by (rule sockets_ok_frame [rotated 2]) (simp_all add: ws_onmessage_footprint)
  with ok SocketDelivers show ?thesis by (simp add: fire_def)
next
  case (SocketCloses w code)
  assume ok: "sockets_ok c"
  show ?thesis
  proof (cases "w < length (sockets c) \<and> ready (sockets c ! w) \<noteq> CLOSED")
    case True
    with ok have "sockets_ok (set_ready w CLOSED c)" by (simp add: sockets_set_ready_CLOSED)
    then have "sockets_ok (ws_onclose w code (set_ready w CLOSED c))"
      by (rule sockets_ok_frame [rotated 2]) (simp_all add: ws_onclose_footprint)
    with True SocketCloses show ?thesis by (simp add: fire_def)
  next
    case False
    with ok SocketCloses show ?thesis by (auto simp: fire_def)
  qed
next
  case (SocketFails w code)
  assume ok: "sockets_ok c"
  show ?thesis
  proof (cases "w < length (sockets c) \<and> ready (sockets c ! w) \<noteq> CLOSED")
    case True
    with ok have "sockets_ok (set_ready w CLOSED c)" by (simp add: sockets_set_ready_CLOSED)
    then have "sockets_ok (ws_onerror w (set_ready w CLOSED c))"
      by (rule sockets_ok_frame [rotated 2]) (simp_all add: ws_onerror_footprint)
    then have "sockets_ok (ws_onclose w code (ws_onerror w (set_ready w CLOSED c)))"
      by (rule sockets_ok_frame [rotated 2]) (simp_all add: ws_onclose_footprint)
    with True SocketFails show ?thesis by (simp add: fire_def)
  next
    case False
    with ok SocketFails show ?thesis by (auto simp: fire_def)
  qed
next
  case (TimerFires t)
  assume ok: "sockets_ok c"
  then have ok': "sockets_ok (c\<lparr>timers := cancel t (timers c)\<rparr>)"
    by (rule sockets_ok_frame [rotated 2]) simp_all
  have "sockets_ok (run_callback cb (c\<lparr>timers := cancel t (timers c)\<rparr>))" for cb
  proof (cases cb)
    case HeartbeatExpired
    with ok' show ?thesis by (simp add: run_callback_def sockets_heartbeat_expired)
  next
    case (Reconnect p)
    from ok' have "sockets_ok (c\<lparr>timers := cancel t (timers c), reconnectTimeout := None\<rparr>)"
      by (rule sockets_ok_frame [rotated 2]) simp_all
    then have "sockets_ok (connect p (c\<lparr>timers := cancel t (timers c), reconnectTimeout := None\<rparr>))"
      by (rule sockets_connect)
    with Reconnect show ?thesis by (simp add: run_callback_def reconnect_fired_def)
  qed
  with ok TimerFires show ?thesis by (simp add: fire_def)
next
  case (UserSends m i f)
  assume ok: "sockets_ok c"
  have "live_sockets (sockets (snd (sendMessage m i f c))) = live_sockets (sockets c)"
    by (rule live_sockets_cong) (simp_all add: sendMessage_footprint)
  with ok UserSends show ?thesis by (simp add: fire_def sockets_ok_def sendMessage_footprint)
next
  case UserStops
  assume ok: "sockets_ok c"
  have "live_sockets (sockets (snd (stopAgent c))) = live_sockets (sockets c)"
    by (rule live_sockets_cong) (simp_all add: stopAgent_footprint)
  with ok UserStops show ?thesis by (simp add: fire_def sockets_ok_def stopAgent_footprint)
next
  case UserLogsOut
  assume "sockets_ok c"
  then have "sockets_ok (in_store logout c)"
    by (rule sockets_ok_frame [rotated 2]) (simp_all add: in_store_def)
  with UserLogsOut show ?thesis by (simp add: fire_def)
next
  case (ProjectCreated p)
  assume "sockets_ok c"
  then have "sockets_ok (in_store (createProject_done p) c)"
    by (rule sockets_ok_frame [rotated 2]) (simp_all add: in_store_def)
  with ProjectCreated show ?thesis by (simp add: fire_def)
next
  case (ClockAdvances n)
  assume "sockets_ok c"
  then have "sockets_ok (c\<lparr>clock := clock c + n\<rparr>)"
    by (rule sockets_ok_frame [rotated 2]) simp_all
  with ClockAdvances show ?thesis by (simp add: fire_def)
qed

subsection \<open>Every event preserves the other two invariants\<close>

lemma ready_close_update:
  "ready (ss[w := WebSocket_close code (ss ! w)] ! i) =
     (if i = w \<and> w < length ss \<and> live (ss ! w) then CLOSING else ready (ss ! i))"
  by (cases "w < length ss"; cases "i = w"; cases "ready (ss ! w)")
     (simp_all add: list_update_beyond WebSocket_close_def live_def)

lemma ready_set_update:
  "w < length ss \<Longrightarrow>
   ready (ss[w := (ss ! w)\<lparr>ready := r\<rparr>] ! i) = (if i = w then r else ready (ss ! i))"
  by simp

lemma store_ws_ok_frame:
  "sockets c' = sockets c \<Longrightarrow> ws (st c') = ws (st c) \<Longrightarrow> store_ws_ok c \<Longrightarrow> store_ws_ok c'"
  by (auto simp: store_ws_ok_def split: option.splits)

lemma reconnect_ok_frame:
  "sockets c' = sockets c \<Longrightarrow> wsRef c' = wsRef c \<Longrightarrow>
   reconnectTimeout c' = reconnectTimeout c \<Longrightarrow> reconnect_ok c \<Longrightarrow> reconnect_ok c'"
  by (auto simp: reconnect_ok_def split: option.splits)

lemma store_ws_connect: "store_ws_ok c \<Longrightarrow> store_ws_ok (connect p c)"
  using connect_either [of p c]
proof
  assume "connect p c = c" and "store_ws_ok c"
  then show ?thesis by simp
next
  assume new: "truthy p \<and> \<not> isConnectingRef c \<and>
      (\<forall>w. wsRef c = Some w \<longrightarrow> \<not> live (sockets c ! w))"
    and ok: "store_ws_ok c"
  from new have n: "truthy p" "\<not> isConnectingRef c"
    "\<forall>w. wsRef c = Some w \<longrightarrow> \<not> live (sockets c ! w)"
    by simp_all
  note * = connect_new(1,6) [OF n]
  from ok show ?thesis
    by (cases "wsRef c"; cases "ws (st c)")
       (simp_all add: store_ws_ok_def * nth_append ready_close_update)
qed

lemma reconnect_connect: "reconnect_ok c \<Longrightarrow> reconnect_ok (connect p c)"
  using connect_either [of p c]
proof
  assume "connect p c = c" and "reconnect_ok c"
  then show ?thesis by simp
next
  assume new: "truthy p \<and> \<not> isConnectingRef c \<and>
      (\<forall>w. wsRef c = Some w \<longrightarrow> \<not> live (sockets c ! w))"
  then have n: "truthy p" "\<not> isConnectingRef c"
    "\<forall>w. wsRef c = Some w \<longrightarrow> \<not> live (sockets c ! w)"
    by simp_all
  show ?thesis by (simp add: reconnect_ok_def connect_new(4) [OF n])
qed

lemma store_ws_cleanup: "store_ws_ok c \<Longrightarrow> store_ws_ok (cleanup c)"
  by (cases "wsRef c"; cases "ws (st c)")
     (simp_all add: store_ws_ok_def cleanup_footprint ready_close_update)

lemma reconnect_cleanup: "reconnect_ok (cleanup c)"
  by (simp add: reconnect_ok_def cleanup_footprint)

lemma store_ws_heartbeat_expired: "store_ws_ok c \<Longrightarrow> store_ws_ok (heartbeat_expired c)"
  by (cases "wsRef c"; cases "ws (st c)")
     (simp_all add: store_ws_ok_def heartbeat_expired_footprint ready_close_update)

lemma reconnect_heartbeat_expired: "reconnect_ok c \<Longrightarrow> reconnect_ok (heartbeat_expired c)"
  by (cases "wsRef c")
     (auto simp: reconnect_ok_def heartbeat_expired_footprint ready_close_update)

lemma store_ws_set_ready:
  "store_ws_ok c \<Longrightarrow> w < length (sockets c) \<Longrightarrow> r \<noteq> CONNECTING \<Longrightarrow>
   store_ws_ok (set_ready w r c)"
  by (cases "ws (st c)") (simp_all add: store_ws_ok_def set_ready_footprint ready_set_update)

lemma store_ws_onopen:
  "w < length (sockets c) \<Longrightarrow> ready (sockets c ! w) \<noteq> CONNECTING \<Longrightarrow>
   store_ws_ok (ws_onopen w c)"
  by (simp add: store_ws_ok_def ws_onopen_footprint setWs_def)

lemma store_ws_onclose: "store_ws_ok (ws_onclose w code c)"
  by (simp add: store_ws_ok_def ws_onclose_footprint setWs_def)

lemma reconnect_set_ready_OPEN:
  assumes "reconnect_ok c" "sockets_ok c" "w < length (sockets c)"
    "ready (sockets c ! w) = CONNECTING"
  shows "reconnect_ok (set_ready w OPEN c)"
proof -
  from assms(3,4) have "w \<in> live_sockets (sockets c)"
    by (simp add: live_sockets_def live_def)
  with assms(2) have "wsRef c = Some w" by (auto simp: sockets_ok_def)
  with assms(1,4) have "reconnectTimeout c = None" by (simp add: reconnect_ok_def)
  then show ?thesis by (simp add: reconnect_ok_def set_ready_footprint)
qed

lemma reconnect_set_ready_CLOSED:
  "reconnect_ok c \<Longrightarrow> w < length (sockets c) \<Longrightarrow> reconnect_ok (set_ready w CLOSED c)"
  by (cases "wsRef c") (auto simp: reconnect_ok_def set_ready_footprint ready_set_update)

lemma reconnect_onclose:
  "reconnect_ok c \<Longrightarrow> ready (sockets c ! w) = CLOSED \<Longrightarrow> reconnect_ok (ws_onclose w code c)"
  by (cases "wsRef c") (auto simp: reconnect_ok_def ws_onclose_footprint)

lemma rest_fire:
  assumes "sockets_ok c" "store_ws_ok c" "reconnect_ok c"
  shows "store_ws_ok (fire e c) \<and> reconnect_ok (fire e c)"
proof (cases e)
  case (Effect p)
  with assms show ?thesis by (simp add: fire_def effect_def store_ws_connect reconnect_connect)
next
  case Cleanup
  with assms show ?thesis by (simp add: fire_def store_ws_cleanup reconnect_cleanup)
next
  case (SocketOpens w)
  show ?thesis
  proof (cases "w < length (sockets c) \<and> ready (sockets c ! w) = CONNECTING")
    case True
    then have "store_ws_ok (ws_onopen w (set_ready w OPEN c))"
      by (intro store_ws_onopen) (simp_all add: set_ready_footprint)
    moreover from assms True have "reconnect_ok (set_ready w OPEN c)"
      by (simp add: reconnect_set_ready_OPEN)
    then have "reconnect_ok (ws_onopen w (set_ready w OPEN c))"
      by (rule reconnect_ok_frame [rotated 3]) (simp_all add: ws_onopen_footprint)
    ultimately show ?thesis using True SocketOpens by (simp add: fire_def)
  next
    case False
    with assms SocketOpens show ?thesis by (auto simp: fire_def)
  qed
next
  case (SocketDelivers w f)
  from assms(2) have "store_ws_ok (snd (ws_onmessage f c))"
    by (rule store_ws_ok_frame [rotated 2]) (simp_all add: ws_onmessage_footprint)
  moreover from assms(3) have "reconnect_ok (snd (ws_onmessage f c))"
    by (rule reconnect_ok_frame [rotated 3]) (simp_all add: ws_onmessage_footprint)
  ultimately show ?thesis using assms SocketDelivers by (simp add: fire_def)
next
  case (SocketCloses w code)
  show ?thesis
  proof (cases "w < length (sockets c) \<and> ready (sockets c ! w) \<noteq> CLOSED")
    case True
    with assms have "reconnect_ok (set_ready w CLOSED c)"
      by (simp add: reconnect_set_ready_CLOSED)
    then have "reconnect_ok (ws_onclose w code (set_ready w CLOSED c))"
      using True by (intro reconnect_onclose) (simp_all add: set_ready_footprint)
    with True SocketCloses show ?thesis by (simp add: fire_def store_ws_onclose)
  next
    case False
    with assms SocketCloses show ?thesis by (auto simp: fire_def)
  qed
next
  case (SocketFails w code)
  show ?thesis
  proof (cases "w < length (sockets c) \<and> ready (sockets c ! w) \<noteq> CLOSED")
    case True
    with assms have "reconnect_ok (set_ready w CLOSED c)"
      by (simp add: reconnect_set_ready_CLOSED)
    then have "reconnect_ok (ws_onerror w (set_ready w CLOSED c))"
      by (rule reconnect_ok_frame [rotated 3]) (simp_all add: ws_onerror_footprint)
    then have "reconnect_ok (ws_onclose w code (ws_onerror w (set_ready w CLOSED c)))"
      using True
      by (intro reconnect_onclose) (simp_all add: ws_onerror_footprint set_ready_footprint)
    with True SocketFails show ?thesis by (simp add: fire_def store_ws_onclose)
  next
    case False
    with assms SocketFails show ?thesis by (auto simp: fire_def)
  qed
next
  case (TimerFires t)
  from assms(2) have s: "store_ws_ok (c\<lparr>timers := cancel t (timers c)\<rparr>)"
    by (rule store_ws_ok_frame [rotated 2]) simp_all
  from assms(3) have r: "reconnect_ok (c\<lparr>timers := cancel t (timers c)\<rparr>)"
    by (rule reconnect_ok_frame [rotated 3]) simp_all
  have "store_ws_ok (run_callback cb (c\<lparr>timers := cancel t (timers c)\<rparr>)) \<and>
        reconnect_ok (run_callback cb (c\<lparr>timers := cancel t (timers c)\<rparr>))" for cb
  proof (cases cb)
    case HeartbeatExpired
    with s r show ?thesis
      by (simp add: run_callback_def store_ws_heartbeat_expired reconnect_heartbeat_expired)
  next
    case (Reconnect p)
    from s have "store_ws_ok (c\<lparr>timers := cancel t (timers c), reconnectTimeout := None\<rparr>)"
      by (rule store_ws_ok_frame [rotated 2]) simp_all
    moreover have "reconnect_ok (c\<lparr>timers := cancel t (timers c), reconnectTimeout := None\<rparr>)"
      by (simp add: reconnect_ok_def)
    ultimately show ?thesis using Reconnect
      by (simp add: run_callback_def reconnect_fired_def store_ws_connect reconnect_connect)
  qed
  with assms TimerFires show ?thesis by (simp add: fire_def)
next
  case (UserSends m i f)
  from assms(2) have "store_ws_ok (snd (sendMessage m i f c))"
    by (cases "ws (st c)") (simp_all add: store_ws_ok_def sendMessage_footprint)
  moreover from assms(3) have "reconnect_ok (snd (sendMessage m i f c))"
    by (cases "wsRef c") (simp_all add: reconnect_ok_def sendMessage_footprint)
  ultimately show ?thesis using UserSends by (simp add: fire_def)
next
  case UserStops
  from assms(2) have "store_ws_ok (snd (stopAgent c))"
    by (cases "ws (st c)") (simp_all add: store_ws_ok_def stopAgent_footprint)
  moreover from assms(3) have "reconnect_ok (snd (stopAgent c))"
    by (cases "wsRef c") (simp_all add: reconnect_ok_def stopAgent_footprint)
  ultimately show ?thesis using UserStops by (simp add: fire_def)
next
  case UserLogsOut
  from assms(2) have "store_ws_ok (in_store logout c)"
    by (rule store_ws_ok_frame [rotated 2]) (simp_all add: in_store_def logout_def)
  moreover from assms(3) have "reconnect_ok (in_store logout c)"
    by (rule reconnect_ok_frame [rotated 3]) (simp_all add: in_store_def)
  ultimately show ?thesis using UserLogsOut by (simp add: fire_def)
next
  case (ProjectCreated p)
  from assms(2) have "store_ws_ok (in_store (createProject_done p) c)"
    by (rule store_ws_ok_frame [rotated 2]) (simp_all add: in_store_def createProject_done_def)
  moreover from assms(3) have "reconnect_ok (in_store (createProject_done p) c)"
    by (rule reconnect_ok_frame [rotated 3]) (simp_all add: in_store_def)
  ultimately show ?thesis using ProjectCreated by (simp add: fire_def)
next
  case (ClockAdvances n)
  from assms(2) have "store_ws_ok (c\<lparr>clock := clock c + n\<rparr>)"
    by (rule store_ws_ok_frame [rotated 2]) simp_all
  moreover from assms(3) have "reconnect_ok (c\<lparr>clock := clock c + n\<rparr>)"
    by (rule reconnect_ok_frame [rotated 3]) simp_all
  ultimately show ?thesis using ClockAdvances by (simp add: fire_def)
qed

lemma hook_ok_fire: "hook_ok c \<Longrightarrow> hook_ok (fire e c)"
  by (simp add: hook_ok_def timers_fire sockets_fire rest_fire)

lemma hook_ok_initial: "hook_ok (initial_client protocol host now)"
  by (simp add: hook_ok_def timers_ok_def sockets_ok_def store_ws_ok_def reconnect_ok_def
        initial_client_def initial_store_def pending_heartbeats_def pending_reconnects_def
        live_sockets_def)

lemma run_snoc: "run (es @ [e]) c = fire e (run es c)"
  by (simp add: run_def)

lemma hook_ok_run: "hook_ok (run es (initial_client protocol host now))"
proof (induction es rule: rev_induct)
  case Nil
  show ?case by (simp add: run_def hook_ok_initial)
next
  case (snoc e es)
  then show ?case by (simp add: run_snoc hook_ok_fire)
qed

lemma connect_idem: "connect p (connect p c) = connect p c"
  using connect_either [of p c]
proof
  assume "connect p c = c"
  then show ?thesis by simp
next
  assume "truthy p \<and> \<not> isConnectingRef c \<and>
      (\<forall>w. wsRef c = Some w \<longrightarrow> \<not> live (sockets c ! w))"
  then have n: "truthy p" "\<not> isConnectingRef c"
    "\<forall>w. wsRef c = Some w \<longrightarrow> \<not> live (sockets c ! w)"
    by simp_all
  from connect_new(7) [OF n] show ?thesis by (simp add: connect_noop)
qed

lemma length_filter_live: "length (filter live ss) = card (live_sockets ss)"
  by (simp add: live_sockets_def length_filter_conv_card)

lemma at_most_one_live:
  assumes "sockets_ok c"
  shows "length (filter live (sockets c)) \<le> 1"
proof -
  from assms have "live_sockets (sockets c) \<subseteq> set_option (wsRef c)"
    by (simp add: sockets_ok_def)
  then have "card (live_sockets (sockets c)) \<le> card (set_option (wsRef c))"
    by (intro card_mono) simp_all
  also have "\<dots> \<le> 1" by (cases "wsRef c") simp_all
  finally show ?thesis by (simp add: length_filter_live)
qed

subsection \<open>A reachable state, computed\<close>

lemma demo_client_eq:
  "demo_client =
     \<lparr>st = initial_store\<lparr>ws := Some 0, wsConnected := True\<rparr>,
      wsRef = Some 0, reconnectTimeout = None, isConnectingRef = False,
      heartbeatTimer = Some 0,
      sockets = [\<lparr>url = ''wss://example.org/ws/chat/p1'', ready = OPEN,
                  closure_projectId = Some ''p1'', close_code = None, sent = []\<rparr>],
      timers = [\<lparr>callback = HeartbeatExpired, delay = 45000, pending = True\<rparr>],
      console = [LogConnecting ''wss://example.org/ws/chat/p1'', LogSocketConnected],
      clock = 0, location_protocol = ''https:'', location_host = ''example.org''\<rparr>"
  by (simp add: demo_client_def run_def fire_def effect_def connect_def truthy_def or_str_def
        Let_def new_WebSocket_def console_log_def initial_client_def set_ready_def
        ws_onopen_def resetHeartbeatTimer_def setTimeout_def HEARTBEAT_TIMEOUT_MS_def
        in_store_def setWs_def)



section \<open>One connection at a time\<close>

text \<open>
  Claim C7. In every state that the client can reach, \<^verbatim>\<open>connect\<close> changes nothing
  while some socket is connecting or open, and at most one socket is connecting or
  open. Calling \<^verbatim>\<open>connect\<close> twice in a row is the same as calling it once, in any
  state: from the initial state the two calls create one socket, which is connecting
  and is the one open socket once it has opened.
\<close>

theorem one_live_connection:
  "(\<forall>i < length (sockets (run es (initial_client protocol host now))).
      live (sockets (run es (initial_client protocol host now)) ! i) \<longrightarrow>
      connect p (run es (initial_client protocol host now)) =
        run es (initial_client protocol host now)) \<and>
   length (filter live (sockets (run es (initial_client protocol host now)))) \<le> 1 \<and>
   connect p (connect p c) = connect p c \<and>
   (truthy p \<longrightarrow>
      map ready (sockets (connect p (connect p (initial_client protocol host now)))) =
        [CONNECTING] \<and>
      map ready (sockets (fire (SocketOpens 0)
        (connect p (connect p (initial_client protocol host now))))) = [OPEN])"
proof -
  define c0 where "c0 = run es (initial_client protocol host now)"
  have ok: "sockets_ok c0"
    using hook_ok_run [of es protocol host now] by (simp add: hook_ok_def c0_def)
  have noop: "connect p c0 = c0" if "i < length (sockets c0)" "live (sockets c0 ! i)" for i
  proof -
    from that have "i \<in> live_sockets (sockets c0)" by (simp add: live_sockets_def)
    with ok have "wsRef c0 = Some i" by (auto simp: sockets_ok_def)
    with that show ?thesis by (intro connect_noop) simp
  qed
  have one: "length (filter live (sockets c0)) \<le> 1"
    using ok by (rule at_most_one_live)
  have twice: "map ready (sockets (connect p (connect p (initial_client protocol host now)))) =
        [CONNECTING] \<and>
      map ready (sockets (fire (SocketOpens 0)
        (connect p (connect p (initial_client protocol host now))))) = [OPEN]"
    if "truthy p"
    using that
    by (simp add: connect_idem)
       (simp add: connect_def initial_client_def Let_def new_WebSocket_def console_log_def
          fire_def set_ready_def ws_onopen_footprint)
  from noop one twice show ?thesis
    unfolding c0_def by (simp add: connect_idem)
qed

theorem one_live_connection_witness:
  "0 < length (sockets demo_client) \<and> live (sockets demo_client ! 0) \<and>
   connect (Some ''p2'') demo_client = demo_client \<and>
   length (filter live (sockets demo_client)) \<le> 1 \<and>
   truthy (Some ''p2'') \<and>
   map ready (sockets (connect (Some ''p2'')
       (connect (Some ''p2'') (initial_client ''https:'' ''example.org'' 0)))) = [CONNECTING]"
  using one_live_connection
    [of "[Effect (Some ''p1''), SocketOpens 0]" "''https:''" "''example.org''" 0 "Some ''p2''"
        "initial_client ''https:'' ''example.org'' 0"]
  by (simp add: demo_client_def [symmetric])
     (simp add: demo_client_eq live_def truthy_def connect_def Let_def new_WebSocket_def
        console_log_def initial_client_def or_str_def)

section \<open>The heartbeat watchdog\<close>

lemma no_pending_reconnects:
  "filter (\<lambda>t. pending t \<and> callback t \<noteq> HeartbeatExpired) ts = [] \<longleftrightarrow>
     pending_reconnects ts = {}"
  by (auto simp: filter_empty_conv pending_reconnects_def all_set_conv_all_nth)






section \<open>Reconnecting after a close\<close>

text \<open>
  Claim C5. \<^verbatim>\<open>ws.onclose\<close> creates a timer exactly when the close code is not 1000,
  the hook holds no reconnect timer and the closed socket is the hook's current one; it
  creates one timer then, which reconnects for the project of the closed socket,
  after 1000 milliseconds when the code is 4000 and after 5000 milliseconds otherwise.
  In every state that the client can reach, the hook holds no reconnect timer exactly
  when no reconnect timer is pending, so the close event of a socket schedules a
  reconnect exactly when the code is not 1000, no reconnect is pending and the socket
  is the current one. With the code 1000 nothing is scheduled.
\<close>

theorem reconnect_after_close:
  "drop (length (timers c)) (timers (ws_onclose w code c)) =
     (if code \<noteq> 1000 \<and> reconnectTimeout c = None \<and> wsRef c = Some w
      then [\<lparr>callback = Reconnect (closure_projectId (sockets c ! w)),
             delay = (if code = 4000 then 1000 else 5000), pending = True\<rparr>]
      else []) \<and>
   (c = run es (initial_client protocol host now) \<and>
    w < length (sockets c) \<and> ready (sockets c ! w) \<noteq> CLOSED \<longrightarrow>
      drop (length (timers c)) (timers (fire (SocketCloses w code) c)) =
        (if code \<noteq> 1000 \<and>
            filter (\<lambda>t. pending t \<and> callback t \<noteq> HeartbeatExpired) (timers c) = [] \<and>
            wsRef c = Some w
         then [\<lparr>callback = Reconnect (closure_projectId (sockets c ! w)),
                delay = (if code = 4000 then 1000 else 5000), pending = True\<rparr>]
         else []))"
proof -
  have handler: "drop (length (timers c)) (timers (ws_onclose w code c)) =
     (if code \<noteq> 1000 \<and> reconnectTimeout c = None \<and> wsRef c = Some w
      then [\<lparr>callback = Reconnect (closure_projectId (sockets c ! w)),
             delay = (if code = 4000 then 1000 else 5000), pending = True\<rparr>]
      else [])" for c
    by (cases "heartbeatTimer c") (simp_all add: ws_onclose_footprint)
  have event: "drop (length (timers c)) (timers (fire (SocketCloses w code) c)) =
        (if code \<noteq> 1000 \<and>
            filter (\<lambda>t. pending t \<and> callback t \<noteq> HeartbeatExpired) (timers c) = [] \<and>
            wsRef c = Some w
         then [\<lparr>callback = Reconnect (closure_projectId (sockets c ! w)),
                delay = (if code = 4000 then 1000 else 5000), pending = True\<rparr>]
         else [])"
    if c: "c = run es (initial_client protocol host now)"
      and w: "w < length (sockets c)" "ready (sockets c ! w) \<noteq> CLOSED"
  proof -
    from c have "timers_ok c"
      using hook_ok_run [of es protocol host now] by (simp add: hook_ok_def)
    then have "filter (\<lambda>t. pending t \<and> callback t \<noteq> HeartbeatExpired) (timers c) = [] \<longleftrightarrow>
        reconnectTimeout c = None"
      by (cases "reconnectTimeout c") (simp_all add: no_pending_reconnects timers_ok_def)
    moreover have "fire (SocketCloses w code) c = ws_onclose w code (set_ready w CLOSED c)"
      using w by (simp add: fire_def)
    ultimately show ?thesis
      using w handler [of "set_ready w CLOSED c"] by (simp add: set_ready_footprint)
  qed
  from handler [of c] event show ?thesis by blast
qed

theorem reconnect_after_close_witness:
  "demo_client =
     run [Effect (Some ''p1''), SocketOpens 0] (initial_client ''https:'' ''example.org'' 0) \<and>
   0 < length (sockets demo_client) \<and> ready (sockets demo_client ! 0) \<noteq> CLOSED \<and>
   drop (length (timers demo_client)) (timers (fire (SocketCloses 0 1006) demo_client)) =
     [\<lparr>callback = Reconnect (Some ''p1''), delay = 5000, pending = True\<rparr>]"
  using reconnect_after_close
    [of demo_client 0 1006 "[Effect (Some ''p1''), SocketOpens 0]" "''https:''"
        "''example.org''" 0]
  by (simp add: demo_client_def [symmetric]) (simp add: demo_client_eq)

section \<open>Sending a turn\<close>




end
